theory Spec2Isabelle
  imports Main "HOL-Library.Char_ord" "HOL-Library.List_Lexorder" "HOL-Library.Multiset"
    "HOL-Library.AList"
begin

chapter \<open>The ERTK code generator\<close>

text \<open>
  A shallow embedding of the codegen engine of ERTK: the extraction of a descriptor from
  the syntax tree of an endpoint file, the derivation of route paths, the grouping by
  route, the generation of the artifacts, and the one-shot build with its manifest. The
  definitions follow the functions of the engine and keep their names; what the engine
  takes from its runtime and its libraries is a parameter (\<open>platform\<close>). The watch mode
  is not part of the embedding.
\<close>

section \<open>Strings and numbers of the host language\<close>

text \<open>
  JavaScript strings are modelled as \<^typ>\<open>string\<close>. The model is exact for ASCII text:
  one \<^typ>\<open>char\<close> is one UTF-16 code unit below 128, and the default \<^verbatim>\<open>Array.prototype.sort\<close>
  order on strings (code units, lexicographic) is the order on \<^typ>\<open>string\<close> given by
  the lexicographic order on lists of characters. Numbers are modelled as integers, which
  is exact below \<open>2 ^ 53\<close>.
\<close>

definition endsWith :: "string \<Rightarrow> string \<Rightarrow> bool" where
  "endsWith s suf = (length suf \<le> length s \<and> drop (length s - length suf) s = suf)"

definition startsWith :: "string \<Rightarrow> string \<Rightarrow> bool" where
  "startsWith s pre = (take (length pre) s = pre)"

text \<open>\<^verbatim>\<open>s.includes(sub)\<close>: \<open>sub\<close> occurs in \<open>s\<close> as a contiguous substring.\<close>

fun string_includes :: "string \<Rightarrow> string \<Rightarrow> bool" where
  "string_includes [] sub = (sub = [])"
| "string_includes (c # s) sub = (startsWith (c # s) sub \<or> string_includes s sub)"

text \<open>\<^verbatim>\<open>s.replace(/\.ts$/, "")\<close>: the pattern is anchored at the end of the input.\<close>

definition replace_ts_suffix :: "string \<Rightarrow> string" where
  "replace_ts_suffix s = (if endsWith s ''.ts'' then take (length s - 3) s else s)"

text \<open>\<^verbatim>\<open>s.replace(/^\/api\//, "")\<close>: the pattern is anchored at the start of the input.\<close>

definition replace_api_prefix :: "string \<Rightarrow> string" where
  "replace_api_prefix s = (if startsWith s ''/api/'' then drop 5 s else s)"

text \<open>\<^verbatim>\<open>f.replace(/\\/g, "/")\<close>: every backslash becomes a slash.\<close>

definition replace_backslashes :: "string \<Rightarrow> string" where
  "replace_backslashes s = map (\<lambda>c. if c = CHR 0x5C then CHR ''/'' else c) s"

text \<open>\<^verbatim>\<open>t.replace(/['"]/g, "")\<close>: every single and double quote is removed.\<close>

definition is_quote :: "char \<Rightarrow> bool" where
  "is_quote c = (c = CHR 0x22 \<or> c = CHR 0x27)"

definition remove_quotes :: "string \<Rightarrow> string" where
  "remove_quotes s = filter (\<lambda>c. \<not> is_quote c) s"

text \<open>\<^verbatim>\<open>s.split(c)\<close> for a one-character separator; the empty string splits into \<^verbatim>\<open>[""]\<close>.\<close>

fun split_on :: "char \<Rightarrow> string \<Rightarrow> string list" where
  "split_on c [] = [[]]"
| "split_on c (x # xs) =
     (if x = c then [] # split_on c xs
      else (case split_on c xs of [] \<Rightarrow> [[x]] | r # rs \<Rightarrow> (x # r) # rs))"

text \<open>\<^verbatim>\<open>xs.join(sep)\<close>.\<close>

fun join :: "string \<Rightarrow> string list \<Rightarrow> string" where
  "join sep [] = []"
| "join sep [x] = x"
| "join sep (x # y # ys) = x @ sep @ join sep (y # ys)"

text \<open>Character classes: ASCII letters and digits, the class \<^verbatim>\<open>\w\<close> of a regular expression
  without the unicode flag, and the ASCII white space that \<^verbatim>\<open>parseInt\<close> and \<^verbatim>\<open>trim\<close> skip.\<close>

definition is_lower :: "char \<Rightarrow> bool" where
  "is_lower c = (CHR ''a'' \<le> c \<and> c \<le> CHR ''z'')"

definition is_upper :: "char \<Rightarrow> bool" where
  "is_upper c = (CHR ''A'' \<le> c \<and> c \<le> CHR ''Z'')"

definition is_digit :: "char \<Rightarrow> bool" where
  "is_digit c = (CHR ''0'' \<le> c \<and> c \<le> CHR ''9'')"

definition is_word_char :: "char \<Rightarrow> bool" where
  "is_word_char c = (is_lower c \<or> is_upper c \<or> is_digit c \<or> c = CHR ''_'')"

definition is_white_space :: "char \<Rightarrow> bool" where
  "is_white_space c = (c \<in> set [CHR 0x09, CHR 0x0A, CHR 0x0B, CHR 0x0C, CHR 0x0D, CHR 0x20])"

text \<open>\<^verbatim>\<open>toUpperCase\<close> on ASCII text: lower-case letters move down by 32, every other
  character is left as it is.\<close>

definition toUpperCase_char :: "char \<Rightarrow> char" where
  "toUpperCase_char c = (if is_lower c then char_of (of_char c - (32::nat)) else c)"

definition toUpperCase :: "string \<Rightarrow> string" where
  "toUpperCase s = map toUpperCase_char s"

definition trim :: "string \<Rightarrow> string" where
  "trim s = rev (dropWhile is_white_space (rev (dropWhile is_white_space s)))"

text \<open>\<^verbatim>\<open>capitalize\<close>: \<^verbatim>\<open>s.charAt(0).toUpperCase() + s.slice(1)\<close>; \<^verbatim>\<open>charAt(0)\<close> of the
  empty string is the empty string.\<close>

definition capitalize :: "string \<Rightarrow> string" where
  "capitalize s = toUpperCase (take 1 s) @ drop 1 s"

text \<open>\<^verbatim>\<open>parseInt(t, 10)\<close>: leading white space is skipped, one sign is read, then the longest
  run of decimal digits; \<open>None\<close> is \<^verbatim>\<open>NaN\<close> (no digit at that place). Whatever follows the
  digits is ignored. The result is the exact value of the digits; the code's number is
  that value up to \<open>2 ^ 53\<close> and the nearest double above.\<close>

definition digit_value :: "char \<Rightarrow> nat" where
  "digit_value c = of_char c - of_char (CHR ''0'')"

definition digits_value :: "string \<Rightarrow> nat" where
  "digits_value ds = foldl (\<lambda>acc c. 10 * acc + digit_value c) 0 ds"

definition parseInt10 :: "string \<Rightarrow> int option" where
  "parseInt10 t =
     (let s = dropWhile is_white_space t;
          negative = (case s of [] \<Rightarrow> False | c # _ \<Rightarrow> c = CHR ''-'');
          s = (case s of [] \<Rightarrow> [] | c # r \<Rightarrow> if c = CHR ''-'' \<or> c = CHR ''+'' then r else s);
          ds = takeWhile is_digit s
      in if ds = [] then None
         else Some (if negative then - int (digits_value ds) else int (digits_value ds)))"

text \<open>The decimal numeral of a number, as a template literal prints it.\<close>

definition digit_char :: "nat \<Rightarrow> char" where
  "digit_char d = char_of (of_char (CHR ''0'') + d)"

fun nat_to_string :: "nat \<Rightarrow> string" where
  "nat_to_string n =
     (if n < 10 then [digit_char n] else nat_to_string (n div 10) @ [digit_char (n mod 10)])"

declare nat_to_string.simps [simp del]

definition int_to_string :: "int \<Rightarrow> string" where
  "int_to_string i = (if i < 0 then ''-'' @ nat_to_string (nat (- i)) else nat_to_string (nat i))"

section \<open>Resolved configuration\<close>

text \<open>\<^verbatim>\<open>ResolvedConfig\<close>; a \<^verbatim>\<open>Set<string>\<close> is the list of its members.\<close>

record routes_config =
  dir :: string
  handlerModule :: string
  ignoredRoutes :: "string list"

record resolved_config =
  root :: string
  endpointsDir :: string
  generatedDir :: string
  manifestPath :: string
  pathAlias :: string
  aliasRoot :: string
  baseUrl :: string
  baseQuery :: "string option"
  crudFilenames :: "string list"
  routes :: "routes_config option"

definition DEFAULT_CRUD_FILENAMES :: "string list" where
  "DEFAULT_CRUD_FILENAMES =
     [''get'', ''list'', ''create'', ''update'', ''delete'', ''send'', ''remove'', ''cancel'']"

section \<open>Syntax trees\<close>

text \<open>
  The part of a file's syntax tree that the extractor reads through the syntax library:
  whether the file has a default export, its call expressions in the order
  \<^verbatim>\<open>getDescendantsOfKind\<close> lists them, and its import declarations. An expression is an
  object literal (with its members) or of some other kind; both have their source text.
  A member of an object literal is one of the six kinds of the syntax library; all but a
  spread have a name (\<^verbatim>\<open>getName()\<close>). The initializer of a property assignment can be
  missing in a tree recovered from a syntax error.
\<close>

datatype expression =
    ObjectLiteralExpression string "object_member list"
  | OtherExpression string
and object_member =
    PropertyAssignment string "expression option"
  | ShorthandPropertyAssignment string
  | SpreadAssignment string
  | MethodDeclaration string
  | GetAccessorDeclaration string
  | SetAccessorDeclaration string

fun getText :: "expression \<Rightarrow> string" where
  "getText (ObjectLiteralExpression t _) = t"
| "getText (OtherExpression t) = t"

fun getName :: "object_member \<Rightarrow> string option" where
  "getName (PropertyAssignment n _) = Some n"
| "getName (ShorthandPropertyAssignment n) = Some n"
| "getName (SpreadAssignment _) = None"
| "getName (MethodDeclaration n) = Some n"
| "getName (GetAccessorDeclaration n) = Some n"
| "getName (SetAccessorDeclaration n) = Some n"

datatype callee =
    PropertyAccessExpression string string
  | OtherCallee

record call_expression =
  getExpression :: callee
  getTypeArguments :: "string list"
  getArguments :: "expression list"

record import_declaration =
  getModuleSpecifierValue :: string
  getNamedImports :: "string list"

record source_file =
  getDefaultExportSymbol :: bool
  getCallExpressions :: "call_expression list"
  getImportDeclarations :: "import_declaration list"

section \<open>Errors\<close>

text \<open>What the code can throw: the syntax library's \<^verbatim>\<open>asKindOrThrow\<close> and
  \<^verbatim>\<open>getInitializerOrThrow\<close>, a file that cannot be read, \<^verbatim>\<open>Object.keys\<close> of \<^verbatim>\<open>null\<close>, and
  a project that cannot be created from the \<^verbatim>\<open>tsconfig.json\<close>.\<close>

datatype exn =
    WrongKindError
  | NoInitializerError
  | FileNotFoundError string
  | TypeError
  | ProjectError

definition bind_exn :: "exn + 'a \<Rightarrow> ('a \<Rightarrow> exn + 'b) \<Rightarrow> exn + 'b" where
  "bind_exn m f = (case m of Inl e \<Rightarrow> Inl e | Inr x \<Rightarrow> f x)"

section \<open>The platform\<close>

text \<open>
  The regular expressions of the optimistic-update generator and of the import sorter.
  Each is used through \<^verbatim>\<open>String.prototype.match\<close> and only its first capture group is read.
  \<^item> \<open>RX_target\<close>: \<^verbatim>\<open>/target:\s*["'](\w+)["']/\<close>
  \<^item> \<open>RX_args_single\<close>: \<^verbatim>\<open>/args:\s*((?:\([^)]*\)|\w+)\s*=>[\s\S]*?)(?=,\s*update:)/\<close>
  \<^item> \<open>RX_update\<close>: \<^verbatim>\<open>/update:\s*((?:\([^)]*\)|\w+)\s*=>[\s\S]*?)(?=,?\s*}$)/\<close>
  \<^item> \<open>RX_condition\<close>: \<^verbatim>\<open>/condition:\s*((?:\([^)]*\)|\w+)\s*=>[^,}]*)/\<close>
  \<^item> \<open>RX_args_multi\<close>: \<^verbatim>\<open>/args:\s*((?:\([^)]*\)|\w+)\s*=>[\s\S]*?)(?=,\s*(?:update|condition):)/\<close>
  \<^item> \<open>RX_updates\<close>: \<^verbatim>\<open>/updates:\s*\[([\s\S]*)\]/\<close>
  \<^item> \<open>RX_from\<close>: \<^verbatim>\<open>/from "(.+)"/\<close>
\<close>

datatype regex =
    RX_target | RX_args_single | RX_update | RX_condition | RX_args_multi | RX_updates | RX_from

text \<open>
  What the code takes from its runtime and libraries: the syntax library's parser (from a
  path and the file's text to the tree), the MD5 digest in hexadecimal, \<^verbatim>\<open>JSON.parse\<close>
  (\<open>None\<close> when it throws) and \<^verbatim>\<open>JSON.stringify(m, null, 2)\<close> of a manifest, the functions
  of the \<^verbatim>\<open>path\<close> module, \<^verbatim>\<open>localeCompare\<close>, and the first capture group of a match
  (\<open>None\<close> when there is no match).
\<close>

datatype json =
    JNull
  | JPrimitive
  | JString string
  | JArray "json list"
  | JObject "(string \<times> json) list"

record platform =
  addSourceFileAtPath :: "string \<Rightarrow> string \<Rightarrow> source_file"
  md5_hex :: "string \<Rightarrow> string"
  JSON_parse :: "string \<Rightarrow> json option"
  JSON_stringify :: "(string \<times> string) list \<Rightarrow> string"
  path_join :: "string \<Rightarrow> string \<Rightarrow> string"
  path_relative :: "string \<Rightarrow> string \<Rightarrow> string"
  path_resolve :: "string \<Rightarrow> string \<Rightarrow> string"
  path_dirname :: "string \<Rightarrow> string"
  path_sep :: char
  localeCompare :: "string \<Rightarrow> string \<Rightarrow> int"
  match_group1 :: "regex \<Rightarrow> string \<Rightarrow> string option"

section \<open>Descriptors\<close>

datatype endpoint_type = Query | Mutation

text \<open>\<^verbatim>\<open>ParsedEndpoint\<close>. A \<^verbatim>\<open>Map<string, Set<string>>\<close> is the list of its entries in insertion
  order, each set the list of its members in insertion order.\<close>

record parsed_endpoint =
  name :: string
  "method" :: string
  filePath :: string
  importPath :: string
  routePath :: string
  isProtected :: bool
  hasRequest :: bool
  hasHandler :: bool
  responseType :: string
  responseTypeImport :: "string option"
  argsType :: string
  argsTypeImport :: "string option"
  queryFnSource :: string
  endpointType :: endpoint_type
  providesTagsSource :: "string option"
  invalidatesTagsSource :: "string option"
  optimisticSource :: "string option"
  maxRetries :: "int option"
  typeImports :: "(string \<times> string list) list"

record route_group =
  group_routePath :: string
  appRouteDir :: string
  methods :: "(string \<times> parsed_endpoint) list"

section \<open>Route path derivation\<close>

text \<open>
  \<^verbatim>\<open>deriveRoutePath\<close>: \<^verbatim>\<open>parts.pop()\<close> removes and returns the last element of the split,
  which is never empty; the loop copies the remaining parts into \<^verbatim>\<open>segments\<close>.
\<close>

definition deriveRoutePath :: "string \<Rightarrow> resolved_config \<Rightarrow> string" where
  "deriveRoutePath file config =
     (let parts = split_on (CHR ''/'') (replace_ts_suffix file);
          fileName = last parts;
          segments = butlast parts;
          segments = (if fileName \<notin> set (crudFilenames config)
                      then segments @ [fileName] else segments)
      in ''/api/'' @ join ''/'' segments)"

section \<open>Descriptor extraction\<close>

text \<open>\<^verbatim>\<open>getProperty(name)\<close>: the first member of the object literal with that name.\<close>

definition getProperty :: "object_member list \<Rightarrow> string \<Rightarrow> object_member option" where
  "getProperty props n = find (\<lambda>m. getName m = Some n) props"

text \<open>\<^verbatim>\<open>.asKindOrThrow(SyntaxKind.PropertyAssignment).getInitializerOrThrow()\<close>: throws for a
  member of another kind and for a missing initializer.\<close>

fun getInitializerOrThrow :: "object_member \<Rightarrow> exn + expression" where
  "getInitializerOrThrow (PropertyAssignment n (Some e)) = Inr e"
| "getInitializerOrThrow (PropertyAssignment n None) = Inl NoInitializerError"
| "getInitializerOrThrow m = Inl WrongKindError"

definition initializerText :: "object_member \<Rightarrow> exn + string" where
  "initializerText m = bind_exn (getInitializerOrThrow m) (\<lambda>e. Inr (getText e))"

text \<open>The first call whose callee is a property access on the text \<^verbatim>\<open>endpoint\<close> with one of
  the five method names.\<close>

fun findEndpointCall :: "call_expression list \<Rightarrow> (call_expression \<times> string) option" where
  "findEndpointCall [] = None"
| "findEndpointCall (call # calls) =
     (case getExpression call of
        PropertyAccessExpression objectText methodName \<Rightarrow>
          if objectText = ''endpoint'' \<and>
             methodName \<in> set [''get'', ''post'', ''put'', ''patch'', ''delete'']
          then Some (call, methodName)
          else findEndpointCall calls
      | OtherCallee \<Rightarrow> findEndpointCall calls)"

definition extractName :: "object_member list \<Rightarrow> exn + string" where
  "extractName configObj =
     (case getProperty configObj ''name'' of
        Some nameProp \<Rightarrow> bind_exn (initializerText nameProp) (\<lambda>t. Inr (remove_quotes t))
      | None \<Rightarrow> Inr [])"

definition extractProtected :: "object_member list \<Rightarrow> exn + bool" where
  "extractProtected configObj =
     (case getProperty configObj ''protected'' of
        Some protectedProp \<Rightarrow> bind_exn (initializerText protectedProp) (\<lambda>t. Inr (t \<noteq> ''false''))
      | None \<Rightarrow> Inr True)"

definition extractQuery :: "object_member list \<Rightarrow> exn + string" where
  "extractQuery configObj =
     (case getProperty configObj ''query'' of
        Some queryProp \<Rightarrow> initializerText queryProp
      | None \<Rightarrow> Inr [])"

definition extractTags :: "object_member list \<Rightarrow> exn + (string option \<times> string option)" where
  "extractTags configObj =
     (case getProperty configObj ''tags'' of
        None \<Rightarrow> Inr (None, None)
      | Some tagsProp \<Rightarrow>
          bind_exn (getInitializerOrThrow tagsProp) (\<lambda>tagsObj.
            case tagsObj of
              OtherExpression _ \<Rightarrow> Inr (None, None)
            | ObjectLiteralExpression _ tagsObjLit \<Rightarrow>
                bind_exn (case getProperty tagsObjLit ''provides'' of
                            None \<Rightarrow> Inr None
                          | Some providesProp \<Rightarrow>
                              bind_exn (initializerText providesProp) (\<lambda>t. Inr (Some t)))
                  (\<lambda>provides.
                bind_exn (case getProperty tagsObjLit ''invalidates'' of
                            None \<Rightarrow> Inr None
                          | Some invalidatesProp \<Rightarrow>
                              bind_exn (initializerText invalidatesProp) (\<lambda>t. Inr (Some t)))
                  (\<lambda>invalidates. Inr (provides, invalidates)))))"

definition extractOptimistic :: "object_member list \<Rightarrow> exn + string option" where
  "extractOptimistic configObj =
     (case getProperty configObj ''optimistic'' of
        Some optimisticProp \<Rightarrow> bind_exn (initializerText optimisticProp) (\<lambda>t. Inr (Some t))
      | None \<Rightarrow> Inr None)"

definition extractMaxRetries :: "object_member list \<Rightarrow> exn + int option" where
  "extractMaxRetries configObj =
     (case getProperty configObj ''maxRetries'' of
        Some maxRetriesProp \<Rightarrow>
          bind_exn (initializerText maxRetriesProp) (\<lambda>t.
            case parseInt10 t of
              Some val \<Rightarrow> if val > 0 then Inr (Some val) else Inr None
            | None \<Rightarrow> Inr None)
      | None \<Rightarrow> Inr None)"

text \<open>\<^verbatim>\<open>resolveToAlias\<close>.\<close>

definition resolveToAlias :: "platform \<Rightarrow> string \<Rightarrow> string \<Rightarrow> resolved_config \<Rightarrow> string" where
  "resolveToAlias P moduleSpecifier fromFile config =
     (if startsWith moduleSpecifier (pathAlias config @ ''/'') then moduleSpecifier
      else let dir' = path_dirname P fromFile;
               resolved = path_resolve P dir' moduleSpecifier
           in if startsWith resolved (aliasRoot config)
              then pathAlias config @ ''/'' @
                   replace_ts_suffix (path_relative P (aliasRoot config) resolved)
              else moduleSpecifier)"

text \<open>\<^verbatim>\<open>addToMapSet\<close>: a new key is appended with the one-element set; an existing key keeps
  its place and its set gets the value unless it has it already.\<close>

definition addToMapSet ::
  "(string \<times> string list) list \<Rightarrow> string \<Rightarrow> string \<Rightarrow> (string \<times> string list) list" where
  "addToMapSet m key v =
     (let m = (if map_of m key = None then AList.update key [] m else m);
          vs = (case map_of m key of None \<Rightarrow> [] | Some vs \<Rightarrow> vs)
      in AList.update key (if v \<in> set vs then vs else vs @ [v]) m)"

text \<open>The body of the loop over the named imports of one import declaration.\<close>

definition resolveNamedImport ::
  "platform \<Rightarrow> resolved_config \<Rightarrow> string \<Rightarrow> string \<Rightarrow> string \<Rightarrow> string \<Rightarrow>
   string option \<times> string option \<times> (string \<times> string list) list \<Rightarrow> string \<Rightarrow>
   string option \<times> string option \<times> (string \<times> string list) list" where
  "resolveNamedImport P config absPath responseType' argsType' moduleSpecifier st importName =
     (let aliasPath = resolveToAlias P moduleSpecifier absPath config;
          (responseTypeImport', argsTypeImport', typeImports') = st;
          (responseTypeImport', typeImports') =
             (if string_includes responseType' importName
              then (Some aliasPath, addToMapSet typeImports' aliasPath importName)
              else (responseTypeImport', typeImports'));
          (argsTypeImport', typeImports') =
             (if string_includes argsType' importName
              then (Some aliasPath, addToMapSet typeImports' aliasPath importName)
              else (argsTypeImport', typeImports'))
      in (responseTypeImport', argsTypeImport', typeImports'))"

definition resolveTypeImports ::
  "platform \<Rightarrow> resolved_config \<Rightarrow> string \<Rightarrow> string \<Rightarrow> string \<Rightarrow> import_declaration list \<Rightarrow>
   string option \<times> string option \<times> (string \<times> string list) list" where
  "resolveTypeImports P config absPath responseType' argsType' decls =
     foldl (\<lambda>st importDecl.
              foldl (resolveNamedImport P config absPath responseType' argsType'
                       (getModuleSpecifierValue importDecl))
                st (getNamedImports importDecl))
       (None, None, []) decls"

text \<open>
  \<^verbatim>\<open>parseEndpointFile\<close>, from the configuration object on. The result is the descriptor or
  \<^verbatim>\<open>null\<close>, with the warnings printed; \<open>Inl\<close> is a thrown exception.
\<close>

definition parseConfigObject ::
  "platform \<Rightarrow> resolved_config \<Rightarrow> string \<Rightarrow> string \<Rightarrow> source_file \<Rightarrow> string \<Rightarrow> string \<Rightarrow> string \<Rightarrow>
   object_member list \<Rightarrow> exn + (parsed_endpoint option \<times> string list)" where
  "parseConfigObject P config file absPath sourceFile method' responseType' argsType' configObj =
     bind_exn (extractName configObj) (\<lambda>name'.
       if name' = [] then Inr (None, [''ERTK: No name property in '' @ file @ '', skipping''])
       else
     bind_exn (extractProtected configObj) (\<lambda>isProtected'.
     bind_exn (extractQuery configObj) (\<lambda>queryFnSource'.
     bind_exn (extractTags configObj) (\<lambda>(providesTagsSource', invalidatesTagsSource').
     bind_exn (extractOptimistic configObj) (\<lambda>optimisticSource'.
     bind_exn (extractMaxRetries configObj) (\<lambda>maxRetries'.
       let (responseTypeImport', argsTypeImport', typeImports') =
             resolveTypeImports P config absPath responseType' argsType'
               (getImportDeclarations sourceFile);
           endpointsRelative = path_relative P (aliasRoot config) (endpointsDir config)
       in Inr (Some \<lparr>
            name = name',
            method = method',
            filePath = file,
            importPath = pathAlias config @ ''/'' @ endpointsRelative @ ''/'' @
                         replace_ts_suffix file,
            routePath = deriveRoutePath file config,
            isProtected = isProtected',
            hasRequest = (getProperty configObj ''request'' \<noteq> None),
            hasHandler = (getProperty configObj ''handler'' \<noteq> None),
            responseType = responseType',
            responseTypeImport = responseTypeImport',
            argsType = argsType',
            argsTypeImport = argsTypeImport',
            queryFnSource = queryFnSource',
            endpointType = (if method' = ''get'' then Query else Mutation),
            providesTagsSource = providesTagsSource',
            invalidatesTagsSource = invalidatesTagsSource',
            optimisticSource = optimisticSource',
            maxRetries = maxRetries',
            typeImports = typeImports' \<rparr>, [])))))))"

text \<open>
  \<^verbatim>\<open>parseEndpointFile\<close>. The project reads the file at the absolute path and throws if it
  is not there.
\<close>

definition parseEndpointFile ::
  "platform \<Rightarrow> (string \<rightharpoonup> string) \<Rightarrow> string \<Rightarrow> resolved_config \<Rightarrow>
   exn + (parsed_endpoint option \<times> string list)" where
  "parseEndpointFile P disk file config =
     (let absPath = path_join P (endpointsDir config) file in
      case disk absPath of
        None \<Rightarrow> Inl (FileNotFoundError absPath)
      | Some text' \<Rightarrow>
         (let sourceFile = addSourceFileAtPath P absPath text' in
          if \<not> getDefaultExportSymbol sourceFile
          then Inr (None, [''ERTK: No default export in '' @ file @ '', skipping''])
          else case findEndpointCall (getCallExpressions sourceFile) of
            None \<Rightarrow>
              Inr (None, [''ERTK: No endpoint.{method}() call found in '' @ file @ '', skipping''])
          | Some (endpointCall, method') \<Rightarrow>
             (let typeArgs = getTypeArguments endpointCall;
                  responseType' = (case typeArgs of [] \<Rightarrow> ''unknown'' | t # _ \<Rightarrow> t);
                  argsType' = (case drop 1 typeArgs of [] \<Rightarrow> ''void'' | t # _ \<Rightarrow> t)
              in case getArguments endpointCall of
                   ObjectLiteralExpression _ configObj # _ \<Rightarrow>
                     parseConfigObject P config file absPath sourceFile method'
                       responseType' argsType' configObj
                 | _ \<Rightarrow>
                     Inr (None, [''ERTK: Config argument not found in '' @ file @ '', skipping'']))))"

section \<open>Route grouping\<close>

text \<open>
  A \<^verbatim>\<open>Map\<close> is the list of its entries in insertion order: \<^verbatim>\<open>set\<close> on a new key appends the
  entry, \<^verbatim>\<open>set\<close> on an existing key replaces the value where it stands
  (\<^const>\<open>AList.update\<close>). The body of the loop of \<^verbatim>\<open>groupEndpointsByRoute\<close> is
  \<open>groupEndpoint\<close>; the function is called with the routes configuration that is present.
\<close>

definition groupEndpoint ::
  "platform \<Rightarrow> routes_config \<Rightarrow> (string \<times> route_group) list \<Rightarrow> parsed_endpoint \<Rightarrow>
   (string \<times> route_group) list" where
  "groupEndpoint P r groups ep =
     (if \<not> hasHandler ep then groups
      else
        let groups =
              (if map_of groups (routePath ep) = None
               then AList.update (routePath ep)
                      \<lparr> group_routePath = routePath ep,
                        appRouteDir = path_join P (dir r) (replace_api_prefix (routePath ep)),
                        methods = [] \<rparr> groups
               else groups);
            httpMethod = toUpperCase (method ep)
        in AList.map_entry (routePath ep)
             (\<lambda>g. g\<lparr> methods := AList.update httpMethod ep (methods g) \<rparr>) groups)"

definition groupEndpointsByRoute ::
  "platform \<Rightarrow> parsed_endpoint list \<Rightarrow> resolved_config \<Rightarrow> (string \<times> route_group) list" where
  "groupEndpointsByRoute P endpoints config =
     (case routes config of
        None \<Rightarrow> []
      | Some r \<Rightarrow> foldl (groupEndpoint P r) [] endpoints)"

section \<open>Code generation\<close>

definition TAB :: string where
  "TAB = [CHR 0x09]"

definition NL :: string where
  "NL = [CHR 0x0A]"

text \<open>\<^verbatim>\<open>Set.prototype.add\<close> on a set kept as the list of its members in insertion order.\<close>

definition set_add :: "string list \<Rightarrow> string \<Rightarrow> string list" where
  "set_add vs v = (if v \<in> set vs then vs else vs @ [v])"

text \<open>
  The captures of \<^verbatim>\<open>source.matchAll(/["'](\w+)["']/g)\<close>, from left to right: a quote, the
  longest run of word characters, which must not be empty, and a quote; the search goes
  on after the closing quote of a match, and one character further where there is none.
\<close>

function quoted_tokens :: "string \<Rightarrow> string list" where
  "quoted_tokens [] = []"
| "quoted_tokens (c # s) =
     (if is_quote c then
        (case dropWhile is_word_char s of
           [] \<Rightarrow> quoted_tokens s
         | q # rest \<Rightarrow>
             if takeWhile is_word_char s \<noteq> [] \<and> is_quote q
             then takeWhile is_word_char s # quoted_tokens rest
             else quoted_tokens s)
      else quoted_tokens s)"
  by pat_completeness auto
termination
proof (relation "measure length")
  fix c :: char and s :: string and q :: char and rest :: string
  assume "dropWhile is_word_char s = q # rest"
  then have "length (q # rest) \<le> length s"
    using length_dropWhile_le[of is_word_char s] by simp
  then show "(rest, c # s) \<in> measure length" by simp
qed auto

text \<open>\<^verbatim>\<open>extractTagTypes\<close>; \<^verbatim>\<open>!source\<close> holds for \<^verbatim>\<open>null\<close> and for the empty string. A capture
  is never empty.\<close>

definition extractTagTypes :: "string option \<Rightarrow> string list \<Rightarrow> string list" where
  "extractTagTypes source tags =
     (case source of
        None \<Rightarrow> tags
      | Some src \<Rightarrow>
          if src = [] then tags
          else foldl (\<lambda>tags m1.
                        case m1 of
                          [] \<Rightarrow> tags
                        | c # _ \<Rightarrow> if [c] = toUpperCase [c] then set_add tags m1 else tags)
                 tags (quoted_tokens src))"

text \<open>The first loop of \<^verbatim>\<open>generateApiTs\<close>: all type imports, by import path.\<close>

definition collectTypeImports :: "parsed_endpoint list \<Rightarrow> (string \<times> string list) list" where
  "collectTypeImports endpoints =
     foldl (\<lambda>allTypeImports ep.
        foldl (\<lambda>allTypeImports (importPath', types).
           let allTypeImports =
                 (if map_of allTypeImports importPath' = None
                  then AList.update importPath' [] allTypeImports
                  else allTypeImports)
           in foldl (\<lambda>allTypeImports t.
                 AList.map_entry importPath' (\<lambda>s. set_add s t) allTypeImports)
                allTypeImports types)
          allTypeImports (typeImports ep))
       [] endpoints"

text \<open>The second loop: all tag types.\<close>

definition collectTagTypes :: "parsed_endpoint list \<Rightarrow> string list" where
  "collectTagTypes endpoints =
     foldl (\<lambda>tagTypes ep.
        extractTagTypes (invalidatesTagsSource ep)
          (extractTagTypes (providesTagsSource ep) tagTypes))
       [] endpoints"

definition hasAnyRetries :: "parsed_endpoint list \<Rightarrow> bool" where
  "hasAnyRetries endpoints =
     list_ex (\<lambda>ep. case maxRetries ep of None \<Rightarrow> False | Some n \<Rightarrow> n > 0) endpoints"

text \<open>\<^verbatim>\<open>extractUpdatesArray\<close>: the brace-depth scan of the text between the brackets.\<close>

fun scanUpdates :: "string \<Rightarrow> int \<Rightarrow> string \<Rightarrow> string list \<Rightarrow> string list" where
  "scanUpdates [] depth current updates = updates"
| "scanUpdates (c # cs) depth current updates =
     (if c = CHR ''{'' then scanUpdates cs (depth + 1) (current @ [c]) updates
      else if c = CHR ''}'' then
        (if depth - 1 = 0 then scanUpdates cs (depth - 1) [] (updates @ [trim (current @ [c])])
         else scanUpdates cs (depth - 1) (current @ [c]) updates)
      else if depth > 0 then scanUpdates cs depth (current @ [c]) updates
      else scanUpdates cs depth current updates)"

definition extractUpdatesArray :: "platform \<Rightarrow> string \<Rightarrow> string list option" where
  "extractUpdatesArray P source =
     (case match_group1 P RX_updates source of
        None \<Rightarrow> None
      | Some content \<Rightarrow>
          let updates = scanUpdates content 0 [] []
          in if length updates > 0 then Some updates else None)"

text \<open>The lines that \<^verbatim>\<open>generateOnQueryStarted\<close> pushes for one element of a multi-target
  update.\<close>

definition updateLines :: "platform \<Rightarrow> string \<Rightarrow> string list" where
  \<open>updateLines P update =
     (case (match_group1 P RX_target update, match_group1 P RX_condition update,
            match_group1 P RX_args_multi update, match_group1 P RX_update update) of
        (Some target, conditionMatch, Some argsMatch, Some updateMatch) \<Rightarrow>
          let argsFn = trim argsMatch; updateFn = trim updateMatch in
          (case conditionMatch of
             Some c \<Rightarrow>
               [TAB @ TAB @ TAB @ TAB @ ''if (('' @ trim c @ '')(params)) {'',
                TAB @ TAB @ TAB @ TAB @ TAB @ ''patches.push('',
                TAB @ TAB @ TAB @ TAB @ TAB @ TAB @ ''dispatch('',
                TAB @ TAB @ TAB @ TAB @ TAB @ TAB @ TAB @ ''api.util.updateQueryData("'' @ target @
                   ''", ('' @ argsFn @ '')(params), (draft) => {'',
                TAB @ TAB @ TAB @ TAB @ TAB @ TAB @ TAB @ TAB @ ''('' @ updateFn @ '')(draft, params);'',
                TAB @ TAB @ TAB @ TAB @ TAB @ TAB @ TAB @ ''}),'',
                TAB @ TAB @ TAB @ TAB @ TAB @ TAB @ ''),'',
                TAB @ TAB @ TAB @ TAB @ TAB @ '');'',
                TAB @ TAB @ TAB @ TAB @ ''}'']
           | None \<Rightarrow>
               [TAB @ TAB @ TAB @ TAB @ ''patches.push('',
                TAB @ TAB @ TAB @ TAB @ TAB @ ''dispatch('',
                TAB @ TAB @ TAB @ TAB @ TAB @ TAB @ ''api.util.updateQueryData("'' @ target @
                   ''", ('' @ argsFn @ '')(params), (draft) => {'',
                TAB @ TAB @ TAB @ TAB @ TAB @ TAB @ TAB @ ''('' @ updateFn @ '')(draft, params);'',
                TAB @ TAB @ TAB @ TAB @ TAB @ TAB @ ''}),'',
                TAB @ TAB @ TAB @ TAB @ TAB @ ''),'',
                TAB @ TAB @ TAB @ TAB @ '');''])
      | _ \<Rightarrow> [])\<close>

definition generateOnQueryStarted :: "platform \<Rightarrow> parsed_endpoint \<Rightarrow> string list option" where
  \<open>generateOnQueryStarted P ep =
     (case optimisticSource ep of
        None \<Rightarrow> None
      | Some src \<Rightarrow>
          if src = [] then None
          else
            let isSingle = string_includes src ''target:'';
                isMulti = string_includes src ''updates:'';
                lines =
                  (if isSingle \<and> \<not> isMulti then
                     (case (match_group1 P RX_target src, match_group1 P RX_args_single src,
                            match_group1 P RX_update src) of
                        (Some target, Some argsMatch, Some updateMatch) \<Rightarrow>
                          let argsFn = trim argsMatch; updateFn = trim updateMatch in
                          [TAB @ TAB @ TAB @
                             ''async onQueryStarted(params, { dispatch, queryFulfilled }) {'',
                           TAB @ TAB @ TAB @ TAB @ ''const patchResult = dispatch('',
                           TAB @ TAB @ TAB @ TAB @ TAB @ ''api.util.updateQueryData("'' @ target @
                             ''", ('' @ argsFn @ '')(params), (draft) => {'',
                           TAB @ TAB @ TAB @ TAB @ TAB @ TAB @ ''('' @ updateFn @ '')(draft, params);'',
                           TAB @ TAB @ TAB @ TAB @ TAB @ ''}),'',
                           TAB @ TAB @ TAB @ TAB @ '');'',
                           TAB @ TAB @ TAB @ TAB @
                             ''try { await queryFulfilled; } catch { patchResult.undo(); }'',
                           TAB @ TAB @ TAB @ ''},'']
                      | _ \<Rightarrow> [])
                   else if isMulti then
                     [TAB @ TAB @ TAB @
                        ''async onQueryStarted(params, { dispatch, queryFulfilled }) {'',
                      TAB @ TAB @ TAB @ TAB @ ''const patches: Array<{ undo: () => void }> = [];'']
                     @ (case extractUpdatesArray P src of
                          None \<Rightarrow> []
                        | Some updatesContent \<Rightarrow> concat (map (updateLines P) updatesContent))
                     @ [TAB @ TAB @ TAB @ TAB @
                          ''try { await queryFulfilled; } catch { for (const p of patches) p.undo(); }'',
                        TAB @ TAB @ TAB @ ''},'']
                   else [])
            in if length lines > 0 then Some lines else None)\<close>

definition generateEndpointDef :: "platform \<Rightarrow> parsed_endpoint \<Rightarrow> string list" where
  \<open>generateEndpointDef P ep =
     (let builderType = (if endpointType ep = Query then ''builder.query'' else ''builder.mutation'');
          lines = [TAB @ TAB @ name ep @ '': '' @ builderType @ ''<'' @ responseType ep @ '', '' @
                   argsType ep @ ''>({''];
          lines = (if queryFnSource ep \<noteq> []
                   then lines @ [TAB @ TAB @ TAB @ ''query: '' @ queryFnSource ep @ '','']
                   else lines);
          lines = (case providesTagsSource ep of
                     None \<Rightarrow> lines
                   | Some t \<Rightarrow> if t \<noteq> []
                       then lines @ [TAB @ TAB @ TAB @ ''providesTags: '' @ t @ '','']
                       else lines);
          lines = (case invalidatesTagsSource ep of
                     None \<Rightarrow> lines
                   | Some t \<Rightarrow> if t \<noteq> []
                       then lines @ [TAB @ TAB @ TAB @ ''invalidatesTags: '' @ t @ '','']
                       else lines);
          lines = (case generateOnQueryStarted P ep of
                     None \<Rightarrow> lines
                   | Some onQueryStarted \<Rightarrow> lines @ onQueryStarted);
          lines = (case maxRetries ep of
                     None \<Rightarrow> lines
                   | Some n \<Rightarrow> if n > 0
                       then lines @ [TAB @ TAB @ TAB @ ''extraOptions: { maxRetries: '' @
                                     int_to_string n @ '' },'']
                       else lines)
      in lines @ [TAB @ TAB @ ''}),''])\<close>

text \<open>
  \<^verbatim>\<open>generateApiTs\<close>. The entries of the type-import map are sorted by the default order
  of \<^verbatim>\<open>sort\<close>, which compares the elements as strings: an entry prints as its key, a
  comma and \<^verbatim>\<open>[object Set]\<close>. A configured base query that is the empty string counts as
  absent.
\<close>

definition baseQuerySource :: "resolved_config \<Rightarrow> string" where
  \<open>baseQuerySource config =
     (case baseQuery config of
        None \<Rightarrow> ''fetchBaseQuery({ baseUrl: "'' @ baseUrl config @ ''" })''
      | Some b \<Rightarrow> if b \<noteq> [] then b
                  else ''fetchBaseQuery({ baseUrl: "'' @ baseUrl config @ ''" })'')\<close>

definition typeImportLines :: "parsed_endpoint list \<Rightarrow> string list" where
  \<open>typeImportLines endpoints =
     map (\<lambda>(importPath', types).
            ''import type { '' @ join '', '' (sort types) @ '' } from "'' @ importPath' @ ''";'')
       (sort_key (\<lambda>(importPath', types). importPath' @ '',[object Set]'')
          (collectTypeImports endpoints))\<close>

definition generateApiTs_lines ::
  "platform \<Rightarrow> parsed_endpoint list \<Rightarrow> resolved_config \<Rightarrow> string list" where
  \<open>generateApiTs_lines P endpoints config =
     [''// AUTO-GENERATED by ERTK codegen. Do not edit.'',
      (if hasAnyRetries endpoints
       then ''import { createApi, fetchBaseQuery, retry } from "@reduxjs/toolkit/query/react";''
       else ''import { createApi, fetchBaseQuery } from "@reduxjs/toolkit/query/react";'')]
     @ typeImportLines endpoints
     @ ['''',
        ''export const api = createApi({'',
        TAB @ ''reducerPath: "api",'',
        (if hasAnyRetries endpoints
         then TAB @ ''baseQuery: retry('' @ baseQuerySource config @ '', { maxRetries: 0 }),''
         else TAB @ ''baseQuery: '' @ baseQuerySource config @ '',''),
        TAB @ ''tagTypes: ['' @
          join '', '' (map (\<lambda>t. ''"'' @ t @ ''"'') (sort (collectTagTypes endpoints))) @ ''],'',
        TAB @ ''refetchOnFocus: false,'',
        TAB @ ''refetchOnReconnect: true,'',
        TAB @ ''endpoints: (builder) => ({'']
     @ concat (map (generateEndpointDef P) endpoints)
     @ [TAB @ ''}),'',
        ''});'',
        '''',
        ''export const {'']
     @ map (\<lambda>ep. TAB @ (if endpointType ep = Query
                          then ''use'' @ capitalize (name ep) @ ''Query''
                          else ''use'' @ capitalize (name ep) @ ''Mutation'') @ '','') endpoints
     @ [''} = api;'']\<close>

definition generateApiTs :: "platform \<Rightarrow> parsed_endpoint list \<Rightarrow> resolved_config \<Rightarrow> string" where
  "generateApiTs P endpoints config = join NL (generateApiTs_lines P endpoints config) @ NL"

definition generateStoreTs :: string where
  \<open>generateStoreTs = concat (map (\<lambda>l. l @ NL)
     [''// AUTO-GENERATED by ERTK codegen. Do not edit.'',
      ''import { configureStore } from "@reduxjs/toolkit";'',
      ''import { api } from "./api";'',
      '''',
      ''export const store = configureStore({'',
      TAB @ ''reducer: {'',
      TAB @ TAB @ ''[api.reducerPath]: api.reducer,'',
      TAB @ ''},'',
      TAB @ ''middleware: (getDefaultMiddleware) =>'',
      TAB @ TAB @ ''getDefaultMiddleware().concat(api.middleware),'',
      ''});'',
      '''',
      ''export type RootState = ReturnType<typeof store.getState>;'',
      ''export type AppDispatch = typeof store.dispatch;''])\<close>

definition generateInvalidationTs :: string where
  \<open>generateInvalidationTs = concat (map (\<lambda>l. l @ NL)
     [''// AUTO-GENERATED by ERTK codegen. Do not edit.'',
      ''import { api } from "./api";'',
      '''',
      ''export function invalidateTags('',
      TAB @ ''...args: Parameters<typeof api.util.invalidateTags>'',
      '') {'',
      TAB @ ''return api.util.invalidateTags(...args);'',
      ''}'',
      '''',
      ''export const updateQueryData = api.util.updateQueryData;''])\<close>

text \<open>
  \<^verbatim>\<open>sort\<close> with a comparator is stable; for a comparator that is a total preorder, as
  \<^verbatim>\<open>localeCompare\<close> is, it is the insertion sort below.
\<close>

fun insert_by :: "('a \<Rightarrow> 'a \<Rightarrow> int) \<Rightarrow> 'a \<Rightarrow> 'a list \<Rightarrow> 'a list" where
  "insert_by cmp x [] = [x]"
| "insert_by cmp x (y # ys) = (if cmp x y \<le> 0 then x # y # ys else y # insert_by cmp x ys)"

definition sort_by :: "('a \<Rightarrow> 'a \<Rightarrow> int) \<Rightarrow> 'a list \<Rightarrow> 'a list" where
  "sort_by cmp xs = foldr (insert_by cmp) xs []"

text \<open>\<^verbatim>\<open>generateRouteFile\<close>, called with the routes configuration that is present.\<close>

definition generateRouteFile :: "platform \<Rightarrow> route_group \<Rightarrow> routes_config \<Rightarrow> string" where
  \<open>generateRouteFile P grp r =
     (let importLines =
            [''import { createRouteHandler } from "'' @ handlerModule r @ ''";'']
            @ map (\<lambda>(_, ep). ''import '' @ name ep @ ''Endpoint from "'' @ importPath ep @ ''";'')
                (methods grp);
          pathOf = (\<lambda>l. case match_group1 P RX_from l of None \<Rightarrow> [] | Some p \<Rightarrow> p);
          importLines = sort_by (\<lambda>a b. localeCompare P (pathOf a) (pathOf b)) importLines;
          lines = [''// AUTO-GENERATED by ERTK codegen. Do not edit.''] @ importLines @ ['''']
            @ map (\<lambda>(method', ep). ''export const '' @ method' @ '' = createRouteHandler('' @
                     name ep @ ''Endpoint);'') (methods grp)
      in join NL lines @ NL)\<close>

section \<open>Incremental build\<close>

text \<open>
  The world a generation runs in: the files on disk, from absolute path to content, and
  the trace of what the run did (files read, written and added to the project, directories
  created, messages printed). Writing a file and creating a directory always succeed;
  reading a file that is not on disk throws. What a run is given from outside is whether
  the project can be created from the \<^verbatim>\<open>tsconfig.json\<close> and the recursive listing of the
  endpoints directory, in the order the operating system returns it (\<open>None\<close> when the
  directory does not exist).
\<close>

datatype event =
    ReadFile string
  | WriteFile string string
  | MkDir string
  | AddSourceFile string
  | Warn string
  | Log string

record world =
  fs :: "string \<rightharpoonup> string"
  trace :: "event list"

record environment =
  projectLoads :: bool
  readdirSync :: "string list option"

definition emit :: "event \<Rightarrow> world \<Rightarrow> world" where
  "emit e w = w\<lparr> trace := trace w @ [e] \<rparr>"

definition writeFileSync :: "string \<Rightarrow> string \<Rightarrow> world \<Rightarrow> world" where
  "writeFileSync p content w = emit (WriteFile p content) (w\<lparr> fs := (fs w)(p \<mapsto> content) \<rparr>)"

definition mkdirSync :: "string \<Rightarrow> world \<Rightarrow> world" where
  "mkdirSync p w = emit (MkDir p) w"

definition scanEndpointFiles :: "resolved_config \<Rightarrow> environment \<Rightarrow> string list" where
  "scanEndpointFiles config env =
     (case readdirSync env of
        None \<Rightarrow> []
      | Some allFiles \<Rightarrow>
          sort (map replace_backslashes (filter (\<lambda>f. endsWith f ''.ts'') allFiles)))"

definition hashFile :: "platform \<Rightarrow> string \<Rightarrow> world \<Rightarrow> exn + (string \<times> world)" where
  "hashFile P p w =
     (case fs w p of
        None \<Rightarrow> Inl (FileNotFoundError p)
      | Some content \<Rightarrow> Inr (md5_hex P content, emit (ReadFile p) w))"

text \<open>\<^verbatim>\<open>loadManifest\<close>: whatever \<^verbatim>\<open>JSON.parse\<close> returns, and the empty object when the file
  cannot be read or parsed.\<close>

definition loadManifest :: "platform \<Rightarrow> resolved_config \<Rightarrow> world \<Rightarrow> json \<times> world" where
  "loadManifest P config w =
     (case fs w (manifestPath config) of
        None \<Rightarrow> (JObject [], w)
      | Some t \<Rightarrow>
          (case JSON_parse P t of
             None \<Rightarrow> (JObject [], emit (ReadFile (manifestPath config)) w)
           | Some v \<Rightarrow> (v, emit (ReadFile (manifestPath config)) w)))"

definition saveManifest ::
  "platform \<Rightarrow> (string \<times> string) list \<Rightarrow> resolved_config \<Rightarrow> world \<Rightarrow> world" where
  "saveManifest P manifest config w =
     writeFileSync (manifestPath config) (JSON_stringify P manifest @ NL) w"

text \<open>\<^verbatim>\<open>buildManifest\<close>: the loop, from the manifest built so far.\<close>

fun buildManifest_from ::
  "platform \<Rightarrow> resolved_config \<Rightarrow> string list \<Rightarrow> (string \<times> string) list \<Rightarrow> world \<Rightarrow>
   exn + ((string \<times> string) list \<times> world)" where
  "buildManifest_from P config [] manifest w = Inr (manifest, w)"
| "buildManifest_from P config (file # files) manifest w =
     bind_exn (hashFile P (path_join P (endpointsDir config) file) w)
       (\<lambda>(h, w). buildManifest_from P config files (AList.update file h manifest) w)"

definition buildManifest ::
  "platform \<Rightarrow> string list \<Rightarrow> resolved_config \<Rightarrow> world \<Rightarrow>
   exn + ((string \<times> string) list \<times> world)" where
  "buildManifest P files config w = buildManifest_from P config files [] w"

text \<open>
  \<^verbatim>\<open>Object.keys\<close> and member access on a parsed value. An object is the list of its
  entries, with distinct keys; the keys of an array and of a string are the indices;
  numbers and booleans have no keys; \<^verbatim>\<open>null\<close> throws.
\<close>

fun Object_keys :: "json \<Rightarrow> exn + string list" where
  "Object_keys JNull = Inl TypeError"
| "Object_keys JPrimitive = Inr []"
| "Object_keys (JString s) = Inr (map nat_to_string [0..<length s])"
| "Object_keys (JArray xs) = Inr (map nat_to_string [0..<length xs])"
| "Object_keys (JObject kvs) = Inr (map fst kvs)"

fun get_member :: "json \<Rightarrow> string \<Rightarrow> json option" where
  "get_member (JObject kvs) k = map_of kvs k"
| "get_member (JArray xs) k = map_of (zip (map nat_to_string [0..<length xs]) xs) k"
| "get_member (JString s) k =
     map_of (zip (map nat_to_string [0..<length s]) (map (\<lambda>c. JString [c]) s)) k"
| "get_member JPrimitive k = None"
| "get_member JNull k = None"

text \<open>
  \<^verbatim>\<open>manifestsMatch(a, b)\<close>: \<open>a\<close> is what \<^verbatim>\<open>loadManifest\<close> returned and \<open>b\<close> the manifest
  that \<^verbatim>\<open>buildManifest\<close> has just built, whose values are strings. The loop runs over the
  two sorted key lists, which have the same length.
\<close>

fun manifestEntriesMatch ::
  "json \<Rightarrow> (string \<times> string) list \<Rightarrow> string list \<Rightarrow> string list \<Rightarrow> bool" where
  "manifestEntriesMatch a b (ka # keysA) (kb # keysB) =
     (if ka \<noteq> kb then False
      else if get_member a ka \<noteq> map_option JString (map_of b kb) then False
      else manifestEntriesMatch a b keysA keysB)"
| "manifestEntriesMatch a b _ _ = True"

definition manifestsMatch :: "json \<Rightarrow> (string \<times> string) list \<Rightarrow> exn + bool" where
  "manifestsMatch a b =
     bind_exn (Object_keys a) (\<lambda>ks.
       let keysA = sort ks; keysB = sort (map fst b)
       in if length keysA \<noteq> length keysB then Inr False
          else Inr (manifestEntriesMatch a b keysA keysB))"

definition writeIfChanged :: "platform \<Rightarrow> string \<Rightarrow> string \<Rightarrow> world \<Rightarrow> bool \<times> world" where
  "writeIfChanged P p content w =
     (case fs w p of
        Some existing \<Rightarrow>
          if existing = content then (False, emit (ReadFile p) w)
          else (True, writeFileSync p content (mkdirSync (path_dirname P p) (emit (ReadFile p) w)))
      | None \<Rightarrow> (True, writeFileSync p content (mkdirSync (path_dirname P p) w)))"

definition isIgnoredRoute :: "platform \<Rightarrow> string \<Rightarrow> resolved_config \<Rightarrow> bool" where
  "isIgnoredRoute P routeDir config =
     (case routes config of
        None \<Rightarrow> True
      | Some r \<Rightarrow>
          let relative = path_relative P (dir r) routeDir;
              topLevel = (case split_on (path_sep P) relative of [] \<Rightarrow> [] | t # _ \<Rightarrow> t)
          in topLevel \<in> set (ignoredRoutes r))"

text \<open>\<^verbatim>\<open>parseAllEndpoints\<close>: the loop over the scanned files, from the cache built so far.\<close>

fun parseAllEndpoints_from ::
  "platform \<Rightarrow> resolved_config \<Rightarrow> string list \<Rightarrow> (string \<times> parsed_endpoint) list \<Rightarrow> world \<Rightarrow>
   exn + ((string \<times> parsed_endpoint) list \<times> world)" where
  "parseAllEndpoints_from P config [] cache w = Inr (cache, w)"
| "parseAllEndpoints_from P config (file # files) cache w =
     bind_exn (parseEndpointFile P (fs w) file config) (\<lambda>(parsed, warnings).
       let w = emit (AddSourceFile (path_join P (endpointsDir config) file)) w;
           w = foldl (\<lambda>w m. emit (Warn m) w) w warnings;
           cache = (case parsed of Some ep \<Rightarrow> AList.update file ep cache | None \<Rightarrow> cache)
       in parseAllEndpoints_from P config files cache w)"

definition parseAllEndpoints ::
  "platform \<Rightarrow> resolved_config \<Rightarrow> environment \<Rightarrow> world \<Rightarrow>
   exn + ((string \<times> parsed_endpoint) list \<times> world)" where
  "parseAllEndpoints P config env w =
     parseAllEndpoints_from P config (scanEndpointFiles config env) [] w"

text \<open>\<^verbatim>\<open>generate\<close>: the three fixed artifacts, then one route file per group that is not
  ignored; the result is the number of route files and the world after the writes.\<close>

definition generate ::
  "platform \<Rightarrow> parsed_endpoint list \<Rightarrow> resolved_config \<Rightarrow> world \<Rightarrow> nat \<times> world" where
  "generate P endpoints config w =
     (let w = mkdirSync (generatedDir config) w;
          w = snd (writeIfChanged P (path_join P (generatedDir config) ''api.ts'')
                     (generateApiTs P endpoints config) w);
          w = snd (writeIfChanged P (path_join P (generatedDir config) ''store.ts'')
                     generateStoreTs w);
          w = snd (writeIfChanged P (path_join P (generatedDir config) ''invalidation.ts'')
                     generateInvalidationTs w)
      in case routes config of
           None \<Rightarrow> (0, w)
         | Some r \<Rightarrow>
             foldl (\<lambda>(routeCount, w) (_, grp).
                      if isIgnoredRoute P (appRouteDir grp) config then (routeCount, w)
                      else (routeCount + 1,
                            snd (writeIfChanged P (path_join P (appRouteDir grp) ''route.ts'')
                                   (generateRouteFile P grp r) w)))
               (0, w) (groupEndpointsByRoute P endpoints config))"

text \<open>\<^verbatim>\<open>runGenerate\<close>, from the full rebuild on: extraction, generation, then the manifest.\<close>

definition rebuild ::
  "platform \<Rightarrow> resolved_config \<Rightarrow> environment \<Rightarrow> (string \<times> string) list \<Rightarrow> world \<Rightarrow>
   exn + world" where
  "rebuild P config env newManifest w =
     bind_exn (parseAllEndpoints P config env w) (\<lambda>(cache, w).
       let (routeCount, w) = generate P (map snd cache) config w;
           w = saveManifest P newManifest config w;
           routeMsg = (if routes config \<noteq> None
                       then '', '' @ nat_to_string routeCount @ '' routes'' else [])
       in Inr (emit (Log (''ERTK: Generated '' @ nat_to_string (length cache) @
                          '' endpoints'' @ routeMsg @ ''.'')) w))"

definition runGenerate ::
  "platform \<Rightarrow> resolved_config \<Rightarrow> environment \<Rightarrow> world \<Rightarrow> exn + world" where
  "runGenerate P config env w =
     (if \<not> projectLoads env then Inl ProjectError
      else
        let files = scanEndpointFiles config env in
        if length files = 0 then Inr (emit (Log ''ERTK: No endpoint files found.'') w)
        else
          let (oldManifest, w) = loadManifest P config w in
          bind_exn (buildManifest P files config w) (\<lambda>(newManifest, w).
          bind_exn (manifestsMatch oldManifest newManifest) (\<lambda>matching.
            if matching then Inr (emit (Log ''ERTK: Nothing changed.'') w)
            else rebuild P config env newManifest w)))"

section \<open>Loop invariants\<close>

text \<open>
  The invariant of the loop of \<^verbatim>\<open>groupEndpointsByRoute\<close> after the endpoints \<open>eps\<close>: the
  route paths of the groups are distinct; a route path without a group has no endpoint
  with a handler among \<open>eps\<close>; and the group of a route path maps each method to the last
  endpoint of \<open>eps\<close> with a handler, that route path and that method in upper case.
\<close>

definition group_inv ::
  "(string \<times> route_group) list \<Rightarrow> parsed_endpoint list \<Rightarrow> bool" where
  "group_inv groups eps \<longleftrightarrow>
     distinct (map fst groups) \<and>
     (\<forall>rp. map_of groups rp = None \<longrightarrow>
        (\<forall>e \<in> set eps. hasHandler e \<longrightarrow> routePath e \<noteq> rp)) \<and>
     (\<forall>rp g. map_of groups rp = Some g \<longrightarrow>
        distinct (map fst (methods g)) \<and>
        (\<forall>M. map_of (methods g) M =
           find (\<lambda>e. hasHandler e \<and> routePath e = rp \<and> toUpperCase (method e) = M)
             (rev eps)))"


section \<open>The artifacts of a generation\<close>

text \<open>
  The files that \<^verbatim>\<open>generate\<close> hands to \<^verbatim>\<open>writeIfChanged\<close>, in its order, each with its
  path and its full text: the data-access surface, the store, the invalidation helpers,
  and one route file for each route group that is not ignored.
\<close>

definition artifacts ::
  "platform \<Rightarrow> parsed_endpoint list \<Rightarrow> resolved_config \<Rightarrow> (string \<times> string) list" where
  "artifacts P endpoints config =
     [(path_join P (generatedDir config) ''api.ts'', generateApiTs P endpoints config),
      (path_join P (generatedDir config) ''store.ts'', generateStoreTs),
      (path_join P (generatedDir config) ''invalidation.ts'', generateInvalidationTs)] @
     (case routes config of
        None \<Rightarrow> []
      | Some r \<Rightarrow>
          map (\<lambda>(_, grp). (path_join P (appRouteDir grp) ''route.ts'', generateRouteFile P grp r))
            (filter (\<lambda>(_, grp). \<not> isIgnoredRoute P (appRouteDir grp) config)
               (groupEndpointsByRoute P endpoints config)))"

section \<open>A sample project\<close>

text \<open>
  A configuration as \<^verbatim>\<open>resolveConfig\<close> builds it for a project at \<^verbatim>\<open>/proj\<close> with route
  generation, three endpoint files with their syntax trees, and a platform with POSIX
  paths. Its digest and JSON codec are stand-ins of the same shape as the real ones (a
  function of the content; a text that parses back to the manifest), and its regular
  expressions never match.
\<close>

definition example_config :: resolved_config where
  "example_config = \<lparr>
     root = ''/proj'',
     endpointsDir = ''/proj/src/endpoints'',
     generatedDir = ''/proj/src/generated'',
     manifestPath = ''/proj/src/generated/.ertk-manifest.json'',
     pathAlias = ''@app'',
     aliasRoot = ''/proj/src'',
     baseUrl = ''/api'',
     baseQuery = None,
     crudFilenames = DEFAULT_CRUD_FILENAMES,
     routes = Some \<lparr> dir = ''/proj/src/app/api'', handlerModule = ''ertk/next'',
                     ignoredRoutes = [] \<rparr> \<rparr>"

definition list_ts :: string where
  \<open>list_ts = ''export default endpoint.get<Task[]>({ name: "listTasks", maxRetries: 2, tags: { provides: ["Tasks"] }, handler });''\<close>

definition list_ts_config :: "object_member list" where
  \<open>list_ts_config =
     [PropertyAssignment ''name'' (Some (OtherExpression ''"listTasks"'')),
      PropertyAssignment ''maxRetries'' (Some (OtherExpression ''2'')),
      PropertyAssignment ''tags'' (Some (ObjectLiteralExpression ''{ provides: ["Tasks"] }''
         [PropertyAssignment ''provides'' (Some (OtherExpression ''["Tasks"]''))])),
      ShorthandPropertyAssignment ''handler'']\<close>

definition list_ts_call :: call_expression where
  \<open>list_ts_call = \<lparr>
     getExpression = PropertyAccessExpression ''endpoint'' ''get'',
     getTypeArguments = [''Task[]''],
     getArguments = [ObjectLiteralExpression
       ''{ name: "listTasks", maxRetries: 2, tags: { provides: ["Tasks"] }, handler }''
       list_ts_config] \<rparr>\<close>

definition list_ts_tree :: source_file where
  "list_ts_tree = \<lparr>
     getDefaultExportSymbol = True,
     getCallExpressions = [list_ts_call],
     getImportDeclarations = [] \<rparr>"

definition create_ts :: string where
  \<open>create_ts = ''export default endpoint.post<Task, NewTask>({ name: "createTask", handler });''\<close>

definition create_ts_tree :: source_file where
  \<open>create_ts_tree = \<lparr>
     getDefaultExportSymbol = True,
     getCallExpressions =
       [\<lparr> getExpression = PropertyAccessExpression ''endpoint'' ''post'',
          getTypeArguments = [''Task'', ''NewTask''],
          getArguments = [ObjectLiteralExpression ''{ name: "createTask", handler }''
            [PropertyAssignment ''name'' (Some (OtherExpression ''"createTask"'')),
             ShorthandPropertyAssignment ''handler'']] \<rparr>],
     getImportDeclarations = [] \<rparr>\<close>

text \<open>A file whose \<^verbatim>\<open>name\<close> is a shorthand property.\<close>

definition shorthand_ts :: string where
  \<open>shorthand_ts = ''const name = "getUser"; export default endpoint.get<User>({ name, handler });''\<close>

definition shorthand_ts_tree :: source_file where
  \<open>shorthand_ts_tree = \<lparr>
     getDefaultExportSymbol = True,
     getCallExpressions =
       [\<lparr> getExpression = PropertyAccessExpression ''endpoint'' ''get'',
          getTypeArguments = [''User''],
          getArguments = [ObjectLiteralExpression ''{ name, handler }''
            [ShorthandPropertyAssignment ''name'',
             ShorthandPropertyAssignment ''handler'']] \<rparr>],
     getImportDeclarations = [] \<rparr>\<close>

definition example_parser :: "string \<Rightarrow> string \<Rightarrow> source_file" where
  "example_parser p t =
     (if t = list_ts then list_ts_tree
      else if t = create_ts then create_ts_tree
      else if t = shorthand_ts then shorthand_ts_tree
      else \<lparr> getDefaultExportSymbol = False, getCallExpressions = [],
             getImportDeclarations = [] \<rparr>)"

definition example_stringify :: "(string \<times> string) list \<Rightarrow> string" where
  "example_stringify m = concat (map (\<lambda>(k, h). k @ ''='' @ h @ '';'') m)"

definition example_parse_entry :: "string \<Rightarrow> (string \<times> json) option" where
  "example_parse_entry e =
     (case split_on (CHR ''='') e of [k, h] \<Rightarrow> Some (k, JString h) | _ \<Rightarrow> None)"

definition example_parse :: "string \<Rightarrow> json option" where
  "example_parse t =
     (if \<not> endsWith t ('';'' @ NL) then None
      else let entries = map example_parse_entry
                 (butlast (split_on (CHR '';'') (take (length t - 1) t)))
           in if None \<in> set entries then None else Some (JObject (map the entries)))"

definition example_platform :: platform where
  "example_platform = \<lparr>
     addSourceFileAtPath = example_parser,
     md5_hex = (\<lambda>content. nat_to_string (length content)),
     JSON_parse = example_parse,
     JSON_stringify = example_stringify,
     path_join = (\<lambda>a b. a @ ''/'' @ b),
     path_relative = (\<lambda>a b. if startsWith b (a @ ''/'') then drop (length a + 1) b else b),
     path_resolve = (\<lambda>a b. a @ ''/'' @ b),
     path_dirname = (\<lambda>p. join ''/'' (butlast (split_on (CHR ''/'') p))),
     path_sep = CHR ''/'',
     localeCompare = (\<lambda>a b. if a < b then - 1 else if a = b then 0 else 1),
     match_group1 = (\<lambda>rx s. None) \<rparr>"

definition example_environment :: environment where
  "example_environment = \<lparr> projectLoads = True,
     readdirSync = Some [''tasks/list.ts'', ''README.md'', ''tasks/create.ts''] \<rparr>"

definition example_world :: world where
  "example_world = \<lparr>
     fs = [''/proj/src/endpoints/tasks/list.ts'' \<mapsto> list_ts,
           ''/proj/src/endpoints/tasks/create.ts'' \<mapsto> create_ts],
     trace = [] \<rparr>"

text \<open>The project after all its endpoint files have been deleted: only a manifest and an
  artifact of an earlier generation are left. And the project with a manifest that does
  not parse.\<close>

definition deleted_environment :: environment where
  "deleted_environment = \<lparr> projectLoads = True, readdirSync = Some [''README.md''] \<rparr>"

definition stale_world :: world where
  "stale_world = \<lparr>
     fs = [''/proj/src/generated/.ertk-manifest.json'' \<mapsto> ''tasks/list.ts=120;'' @ NL,
           ''/proj/src/generated/store.ts'' \<mapsto> generateStoreTs],
     trace = [] \<rparr>"

definition corrupt_world :: world where
  "corrupt_world = \<lparr>
     fs = [''/proj/src/endpoints/tasks/list.ts'' \<mapsto> list_ts,
           ''/proj/src/endpoints/tasks/create.ts'' \<mapsto> create_ts,
           ''/proj/src/generated/.ertk-manifest.json'' \<mapsto> ''{ tasks/li''],
     trace = [] \<rparr>"

text \<open>The descriptors of the two endpoint files, a second \<^verbatim>\<open>get\<close> endpoint on the same route,
  and a client-only endpoint without a handler.\<close>

definition listTasks_endpoint :: parsed_endpoint where
  \<open>listTasks_endpoint = \<lparr>
     name = ''listTasks'', method = ''get'', filePath = ''tasks/list.ts'',
     importPath = ''@app/endpoints/tasks/list'', routePath = ''/api/tasks'',
     isProtected = True, hasRequest = False, hasHandler = True,
     responseType = ''Task[]'', responseTypeImport = None,
     argsType = ''void'', argsTypeImport = None,
     queryFnSource = [], endpointType = Query,
     providesTagsSource = Some ''["Tasks"]'', invalidatesTagsSource = None,
     optimisticSource = None, maxRetries = Some 2, typeImports = [] \<rparr>\<close>

definition createTask_endpoint :: parsed_endpoint where
  \<open>createTask_endpoint = \<lparr>
     name = ''createTask'', method = ''post'', filePath = ''tasks/create.ts'',
     importPath = ''@app/endpoints/tasks/create'', routePath = ''/api/tasks'',
     isProtected = True, hasRequest = False, hasHandler = True,
     responseType = ''Task'', responseTypeImport = None,
     argsType = ''NewTask'', argsTypeImport = None,
     queryFnSource = [], endpointType = Mutation,
     providesTagsSource = None, invalidatesTagsSource = None,
     optimisticSource = None, maxRetries = None, typeImports = [] \<rparr>\<close>

definition getTasks_endpoint :: parsed_endpoint where
  "getTasks_endpoint = listTasks_endpoint \<lparr> name := ''getTasks'', filePath := ''tasks/get.ts'',
     importPath := ''@app/endpoints/tasks/get'', maxRetries := None \<rparr>"

definition external_endpoint :: parsed_endpoint where
  "external_endpoint = listTasks_endpoint \<lparr> name := ''weather'', filePath := ''tasks/remove.ts'',
     importPath := ''@app/endpoints/tasks/remove'', hasHandler := False, maxRetries := None \<rparr>"








section \<open>Properties of the route path derivation\<close>

lemma split_on_not_Nil: "split_on c s \<noteq> []"
  by (induction s) (auto split: list.splits)

lemma split_on_no_sep: "c \<notin> set s \<Longrightarrow> split_on c s = [s]"
  by (induction s) auto

lemma split_on_append_sep:
  "c \<notin> set s \<Longrightarrow> split_on c (s @ c # t) = s # split_on c t"
  by (induction s) auto

lemma split_on_join:
  "xs \<noteq> [] \<Longrightarrow> \<forall>s \<in> set xs. c \<notin> set s \<Longrightarrow> split_on c (join [c] xs) = xs"
proof (induction xs rule: list_nonempty_induct)
  case (single x)
  then show ?case by (simp add: split_on_no_sep)
next
  case (cons x xs)
  then obtain y ys where "xs = y # ys" by (cases xs) auto
  with cons show ?case by (simp add: split_on_append_sep)
qed

lemma replace_ts_suffix_append: "replace_ts_suffix (s @ ''.ts'') = s"
  by (simp add: replace_ts_suffix_def endsWith_def)

text \<open>
  Claim C4. For every relative path the derived route is \<^verbatim>\<open>/api/\<close> followed by the join of
  the path's segments without the extension, where the last segment (the file name) is
  kept only if it is not a CRUD file name. For a path built from directory segments and a
  file name this is the join of the directories, plus the file name unless it is a CRUD
  file name. With the default CRUD set the four literal cases of the specification hold.
\<close>

theorem deriveRoutePath_spec:
  "deriveRoutePath p config =
     ''/api/'' @ join ''/'' (butlast (split_on (CHR ''/'') (replace_ts_suffix p)) @
        (if last (split_on (CHR ''/'') (replace_ts_suffix p)) \<in> set (crudFilenames config)
         then [] else [last (split_on (CHR ''/'') (replace_ts_suffix p))]))
   \<and> ((\<forall>s \<in> set (ds @ [f]). CHR ''/'' \<notin> set s) \<longrightarrow>
     deriveRoutePath (join ''/'' (ds @ [f]) @ ''.ts'') config =
       ''/api/'' @ join ''/'' (ds @ (if f \<in> set (crudFilenames config) then [] else [f])))
   \<and> (crudFilenames config = DEFAULT_CRUD_FILENAMES \<longrightarrow>
     deriveRoutePath ''tasks/list.ts'' config = ''/api/tasks'' \<and>
     deriveRoutePath ''tasks/create.ts'' config = ''/api/tasks'' \<and>
     deriveRoutePath ''users/profile/update.ts'' config = ''/api/users/profile'' \<and>
     deriveRoutePath ''billing/invoices.ts'' config = ''/api/billing/invoices'')"
proof (intro conjI impI)
  show "deriveRoutePath p config =
     ''/api/'' @ join ''/'' (butlast (split_on (CHR ''/'') (replace_ts_suffix p)) @
        (if last (split_on (CHR ''/'') (replace_ts_suffix p)) \<in> set (crudFilenames config)
         then [] else [last (split_on (CHR ''/'') (replace_ts_suffix p))]))"
    by (simp add: deriveRoutePath_def Let_def)
next
  assume noslash: "\<forall>s \<in> set (ds @ [f]). CHR ''/'' \<notin> set s"
  have "split_on (CHR ''/'') (join ''/'' (ds @ [f])) = ds @ [f]"
    using split_on_join[of "ds @ [f]" "CHR ''/''"] noslash by simp
  then show "deriveRoutePath (join ''/'' (ds @ [f]) @ ''.ts'') config =
       ''/api/'' @ join ''/'' (ds @ (if f \<in> set (crudFilenames config) then [] else [f]))"
    by (simp add: deriveRoutePath_def Let_def replace_ts_suffix_append)
next
  assume d: "crudFilenames config = DEFAULT_CRUD_FILENAMES"
  show "deriveRoutePath ''tasks/list.ts'' config = ''/api/tasks''"
    using d by (simp add: deriveRoutePath_def Let_def replace_ts_suffix_def endsWith_def
        DEFAULT_CRUD_FILENAMES_def)
  show "deriveRoutePath ''tasks/create.ts'' config = ''/api/tasks''"
    using d by (simp add: deriveRoutePath_def Let_def replace_ts_suffix_def endsWith_def
        DEFAULT_CRUD_FILENAMES_def)
  show "deriveRoutePath ''users/profile/update.ts'' config = ''/api/users/profile''"
    using d by (simp add: deriveRoutePath_def Let_def replace_ts_suffix_def endsWith_def
        DEFAULT_CRUD_FILENAMES_def)
  show "deriveRoutePath ''billing/invoices.ts'' config = ''/api/billing/invoices''"
    using d by (simp add: deriveRoutePath_def Let_def replace_ts_suffix_def endsWith_def
        DEFAULT_CRUD_FILENAMES_def)
qed


theorem deriveRoutePath_spec_witness:
  "CHR ''/'' \<notin> set ''users'' \<and> CHR ''/'' \<notin> set ''profile'' \<and> CHR ''/'' \<notin> set ''update'' \<and>
   crudFilenames example_config = DEFAULT_CRUD_FILENAMES \<and>
   deriveRoutePath (join ''/'' ([''users'', ''profile''] @ [''update'']) @ ''.ts'') example_config =
     ''/api/users/profile'' \<and>
   deriveRoutePath ''billing/invoices.ts'' example_config = ''/api/billing/invoices''"
  using deriveRoutePath_spec[of "''users/profile/update.ts''" example_config
      "[''users'', ''profile'']" "''update''", THEN conjunct2]
  by (simp add: example_config_def DEFAULT_CRUD_FILENAMES_def)

section \<open>Properties of the one-shot generation\<close>

lemma buildManifest_from_keys:
  "buildManifest_from P config files m w = Inr (m', w') \<Longrightarrow>
     fst ` set m' = set files \<union> fst ` set m"
proof (induction files arbitrary: m w)
  case Nil
  then show ?case by simp
next
  case (Cons f files)
  from Cons.prems obtain h w1 where
    h: "hashFile P (path_join P (endpointsDir config) f) w = Inr (h, w1)" and
    rest: "buildManifest_from P config files (AList.update f h m) w1 = Inr (m', w')"
    by (auto simp: bind_exn_def split: sum.splits)
  from Cons.IH[OF rest] show ?case
    by (auto simp: dom_update)
qed

lemma manifestsMatch_empty:
  "m \<noteq> [] \<Longrightarrow> manifestsMatch (JObject []) m = Inr False"
  by (simp add: manifestsMatch_def bind_exn_def)

lemma loadManifest_fs: "fs (snd (loadManifest P config w)) = fs w"
  by (simp add: loadManifest_def emit_def split: option.splits)

lemma buildManifest_from_readable:
  "\<forall>f \<in> set files. fs w (path_join P (endpointsDir config) f) \<noteq> None \<Longrightarrow>
   buildManifest_from P config files m w =
     Inr (foldl (\<lambda>m f. AList.update f
                  (md5_hex P (the (fs w (path_join P (endpointsDir config) f)))) m) m files,
          w\<lparr> trace := trace w @ map (\<lambda>f. ReadFile (path_join P (endpointsDir config) f)) files \<rparr>)"
proof (induction files arbitrary: m w)
  case Nil
  then show ?case by simp
next
  case (Cons f files)
  then obtain c where c: "fs w (path_join P (endpointsDir config) f) = Some c" by auto
  let ?w1 = "emit (ReadFile (path_join P (endpointsDir config) f)) w"
  have "\<forall>g \<in> set files. fs ?w1 (path_join P (endpointsDir config) g) \<noteq> None"
    using Cons.prems by (simp add: emit_def)
  from Cons.IH[OF this, of "AList.update f (md5_hex P c) m"] c show ?case
    by (simp add: hashFile_def bind_exn_def emit_def)
qed

text \<open>
  Claim C10. If the one-shot generation finds no endpoint source file, it returns after
  printing that there are none: the manifest is neither loaded, compared nor saved and no
  artifact is written, so the files on disk, a manifest and artifacts of an earlier run
  among them, are what they were.
\<close>

theorem runGenerate_no_files:
  "projectLoads env \<Longrightarrow> scanEndpointFiles config env = [] \<Longrightarrow>
     \<exists>w'. runGenerate P config env w = Inr w' \<and> fs w' = fs w \<and>
          trace w' = trace w @ [Log ''ERTK: No endpoint files found.'']"
  by (simp add: runGenerate_def emit_def)

theorem runGenerate_no_files_witness:
  "projectLoads deleted_environment \<and>
   scanEndpointFiles example_config deleted_environment = [] \<and>
   (\<exists>w'. runGenerate example_platform example_config deleted_environment stale_world = Inr w' \<and>
      fs w' = fs stale_world \<and>
      fs w' (manifestPath example_config) = Some (''tasks/list.ts=120;'' @ NL) \<and>
      trace w' = [Log ''ERTK: No endpoint files found.''])"
proof -
  have a: "projectLoads deleted_environment"
    by (simp add: deleted_environment_def)
  have b: "scanEndpointFiles example_config deleted_environment = []"
    by (simp add: scanEndpointFiles_def deleted_environment_def endsWith_def)
  show ?thesis
    using runGenerate_no_files[OF a b, of example_platform stale_world] a b
    by (auto simp: stale_world_def example_config_def)
qed

text \<open>
  Claim C9. A persisted manifest that cannot be read or does not parse never fails the
  build: \<^verbatim>\<open>loadManifest\<close> returns the empty map, the comparison with the manifest of a
  non-empty set of source files reports a mismatch, and the run goes on to hash the
  sources and rebuild in full.
\<close>

theorem loadManifest_corrupt:
  assumes "fs w (manifestPath config) = None \<or>
           (\<exists>t. fs w (manifestPath config) = Some t \<and> JSON_parse P t = None)"
  shows "fst (loadManifest P config w) = JObject [] \<and>
         (\<forall>files m w'. files \<noteq> [] \<and>
             buildManifest P files config (snd (loadManifest P config w)) = Inr (m, w') \<longrightarrow>
             manifestsMatch (fst (loadManifest P config w)) m = Inr False) \<and>
         (projectLoads env \<and> scanEndpointFiles config env \<noteq> [] \<longrightarrow>
            runGenerate P config env w =
              bind_exn (buildManifest P (scanEndpointFiles config env) config
                          (snd (loadManifest P config w)))
                (\<lambda>(m, w'). rebuild P config env m w'))"
proof -
  have empty: "fst (loadManifest P config w) = JObject []"
    using assms by (auto simp: loadManifest_def)
  have mismatch: "manifestsMatch (JObject []) m = Inr False"
    if "files \<noteq> []" and
       "buildManifest P files config (snd (loadManifest P config w)) = Inr (m, w')"
    for files m w'
  proof -
    from that(2) have "buildManifest_from P config files [] (snd (loadManifest P config w)) = Inr (m, w')"
      by (simp add: buildManifest_def)
    from buildManifest_from_keys[OF this] have "fst ` set m = set files" by simp
    with that(1) have "m \<noteq> []" by auto
    then show ?thesis by (rule manifestsMatch_empty)
  qed
  have run: "runGenerate P config env w =
      bind_exn (buildManifest P (scanEndpointFiles config env) config
                  (snd (loadManifest P config w)))
        (\<lambda>(m, w'). rebuild P config env m w')"
    if "projectLoads env" and "scanEndpointFiles config env \<noteq> []"
  proof (cases "buildManifest P (scanEndpointFiles config env) config
                  (snd (loadManifest P config w))")
    case (Inl e)
    then show ?thesis
      using that by (simp add: runGenerate_def bind_exn_def split_beta)
  next
    case (Inr r)
    obtain m w' where r: "r = (m, w')" by (cases r)
    have "manifestsMatch (JObject []) m = Inr False"
      using mismatch[OF that(2)] Inr r by simp
    then show ?thesis
      using that Inr r empty by (simp add: runGenerate_def bind_exn_def split_beta)
  qed
  show ?thesis unfolding empty using mismatch run by blast
qed


theorem loadManifest_corrupt_witness:
  "(\<exists>t. fs corrupt_world (manifestPath example_config) = Some t \<and>
        JSON_parse example_platform t = None) \<and>
   projectLoads example_environment \<and>
   scanEndpointFiles example_config example_environment = [''tasks/create.ts'', ''tasks/list.ts''] \<and>
   fst (loadManifest example_platform example_config corrupt_world) = JObject [] \<and>
   (\<exists>m w'. buildManifest example_platform [''tasks/create.ts'', ''tasks/list.ts''] example_config
             (snd (loadManifest example_platform example_config corrupt_world)) = Inr (m, w') \<and>
           manifestsMatch (fst (loadManifest example_platform example_config corrupt_world)) m
             = Inr False \<and>
           runGenerate example_platform example_config example_environment corrupt_world =
             rebuild example_platform example_config example_environment m w')"
proof -
  have mp: "fs corrupt_world (manifestPath example_config) = Some ''{ tasks/li''"
    by (simp add: corrupt_world_def example_config_def)
  have np: "JSON_parse example_platform ''{ tasks/li'' = None"
    by (simp add: example_platform_def example_parse_def endsWith_def NL_def)
  have hyp: "fs corrupt_world (manifestPath example_config) = None \<or>
     (\<exists>t. fs corrupt_world (manifestPath example_config) = Some t \<and>
          JSON_parse example_platform t = None)"
    using mp np by simp
  have pl: "projectLoads example_environment"
    by (simp add: example_environment_def)
  have sc: "scanEndpointFiles example_config example_environment =
      [''tasks/create.ts'', ''tasks/list.ts'']"
    by (simp add: scanEndpointFiles_def example_environment_def endsWith_def
        replace_backslashes_def)
  let ?w1 = "snd (loadManifest example_platform example_config corrupt_world)"
  have fs1: "fs ?w1 = fs corrupt_world" by (rule loadManifest_fs)
  have "\<forall>f \<in> set [''tasks/create.ts'', ''tasks/list.ts''].
          fs ?w1 (path_join example_platform (endpointsDir example_config) f) \<noteq> None"
    unfolding fs1 by (simp add: corrupt_world_def example_platform_def example_config_def)
  from buildManifest_from_readable[OF this, of "[]"]
  obtain m w' where bm: "buildManifest example_platform [''tasks/create.ts'', ''tasks/list.ts'']
      example_config ?w1 = Inr (m, w')"
    by (simp add: buildManifest_def)
  note inst = loadManifest_corrupt[OF hyp, of example_environment]
  have mm: "manifestsMatch (fst (loadManifest example_platform example_config corrupt_world)) m
      = Inr False"
    using inst bm by blast
  have run: "runGenerate example_platform example_config example_environment corrupt_world =
      rebuild example_platform example_config example_environment m w'"
    using inst pl sc bm by (simp add: bind_exn_def)
  have e: "fst (loadManifest example_platform example_config corrupt_world) = JObject []"
    using inst by blast
  show ?thesis using mp np pl sc e bm mm run by blast
qed


section \<open>Determinism and idempotence of the build\<close>

text \<open>What \<^verbatim>\<open>generate\<close> does is to write its artifacts in order, after creating the output
  directory; its result counts the route files.\<close>

lemma route_loop_artifacts:
  "foldl (\<lambda>(routeCount, w) (_, grp).
            if isIgnoredRoute P (appRouteDir grp) config then (routeCount, w)
            else (routeCount + 1,
                  snd (writeIfChanged P (path_join P (appRouteDir grp) ''route.ts'')
                         (generateRouteFile P grp r) w)))
     (n, w) groups =
   (n + length (filter (\<lambda>(_, grp). \<not> isIgnoredRoute P (appRouteDir grp) config) groups),
    foldl (\<lambda>w (p, content). snd (writeIfChanged P p content w)) w
      (map (\<lambda>(_, grp). (path_join P (appRouteDir grp) ''route.ts'', generateRouteFile P grp r))
         (filter (\<lambda>(_, grp). \<not> isIgnoredRoute P (appRouteDir grp) config) groups)))"
  by (induction groups arbitrary: n w) (auto simp: split_beta)

lemma generate_artifacts:
  "generate P endpoints config w =
     (length (artifacts P endpoints config) - 3,
      foldl (\<lambda>w (p, content). snd (writeIfChanged P p content w))
        (mkdirSync (generatedDir config) w) (artifacts P endpoints config))"
  by (simp add: generate_def artifacts_def route_loop_artifacts Let_def split: option.splits)






lemma fs_emit [simp]: "fs (emit e w) = fs w"
  by (simp add: emit_def)

lemma trace_emit [simp]: "trace (emit e w) = trace w @ [e]"
  by (simp add: emit_def)

lemma buildManifest_from_Inr_readable:
  "buildManifest_from P config files m w = Inr r \<Longrightarrow>
     \<forall>f \<in> set files. fs w (path_join P (endpointsDir config) f) \<noteq> None"
proof (induction files arbitrary: m w)
  case Nil
  then show ?case by simp
next
  case (Cons f files)
  from Cons.prems obtain h w1 where
    h: "hashFile P (path_join P (endpointsDir config) f) w = Inr (h, w1)" and
    rest: "buildManifest_from P config files (AList.update f h m) w1 = Inr r"
    by (auto simp: bind_exn_def split: sum.splits)
  from h have "fs w (path_join P (endpointsDir config) f) \<noteq> None" and "fs w1 = fs w"
    by (auto simp: hashFile_def split: option.splits)
  with Cons.IH[OF rest] show ?case by simp
qed

lemma foldl_update_distinct:
  "distinct (map fst m) \<Longrightarrow> distinct (map fst (foldl (\<lambda>m f. AList.update f (h f) m) m files))"
  by (induction files arbitrary: m) (simp_all add: distinct_update)

lemma buildManifest_distinct:
  assumes "buildManifest P files config w = Inr (m, w')"
  shows "distinct (map fst m)"
proof -
  from assms have b: "buildManifest_from P config files [] w = Inr (m, w')"
    by (simp add: buildManifest_def)
  from buildManifest_from_readable[OF buildManifest_from_Inr_readable[OF b], of "[]"] b
  have "m = foldl (\<lambda>m f. AList.update f
                  (md5_hex P (the (fs w (path_join P (endpointsDir config) f)))) m) [] files"
    by simp
  then show ?thesis
    using foldl_update_distinct[of "[]"
        "\<lambda>f. md5_hex P (the (fs w (path_join P (endpointsDir config) f)))" files]
    by simp
qed

lemma buildManifest_same_sources:
  assumes b: "buildManifest P files config w = Inr (m, w')"
    and same: "\<forall>f \<in> set files. fs v (path_join P (endpointsDir config) f) =
                               fs w (path_join P (endpointsDir config) f)"
  shows "buildManifest P files config v =
      Inr (m, v\<lparr> trace := trace v @ map (\<lambda>f. ReadFile (path_join P (endpointsDir config) f)) files \<rparr>)"
proof -
  from b have bw: "buildManifest_from P config files [] w = Inr (m, w')"
    by (simp add: buildManifest_def)
  have rw: "\<forall>f \<in> set files. fs w (path_join P (endpointsDir config) f) \<noteq> None"
    using bw by (rule buildManifest_from_Inr_readable)
  with same have rv: "\<forall>f \<in> set files. fs v (path_join P (endpointsDir config) f) \<noteq> None"
    by simp
  have "foldl (\<lambda>m f. AList.update f
            (md5_hex P (the (fs v (path_join P (endpointsDir config) f)))) m) [] files =
        foldl (\<lambda>m f. AList.update f
            (md5_hex P (the (fs w (path_join P (endpointsDir config) f)))) m) [] files"
    using same by (intro foldl_cong) simp_all
  also have "\<dots> = m"
    using buildManifest_from_readable[OF rw, of "[]"] bw by simp
  finally show ?thesis
    using buildManifest_from_readable[OF rv, of "[]"] by (simp add: buildManifest_def)
qed

lemma manifestEntriesMatch_same:
  "\<forall>k \<in> set ks. get_member a k = map_option JString (map_of b k) \<Longrightarrow>
     manifestEntriesMatch a b ks ks"
  by (induction ks) simp_all

lemma manifestsMatch_same:
  assumes da: "distinct (map fst obj)" and db: "distinct (map fst m)"
    and eq: "map_of obj = map_of (map (\<lambda>(k, h). (k, JString h)) m)"
  shows "manifestsMatch (JObject obj) m = Inr True"
proof -
  have look: "map_of obj k = map_option JString (map_of m k)" for k
    unfolding eq by (induction m) auto
  have "set (map fst obj) = dom (map_of obj)" by (simp add: dom_map_of_conv_image_fst)
  also have "\<dots> = dom (map_of m)" by (auto simp: look dom_def)
  also have "\<dots> = set (map fst m)" by (simp add: dom_map_of_conv_image_fst)
  finally have "set (map fst obj) = set (map fst m)" .
  with da db have "mset (map fst obj) = mset (map fst m)"
    by (simp only: set_eq_iff_mset_eq_distinct)
  then have "mset (sort (map fst m)) = mset (map fst obj)" by simp
  then have keys: "sort (map fst obj) = sort (map fst m)"
    by (rule properties_for_sort) simp
  have "manifestEntriesMatch (JObject obj) m (sort (map fst m)) (sort (map fst m))"
    by (rule manifestEntriesMatch_same) (simp add: look)
  moreover from keys have "length obj = length m"
    by (metis length_map length_sort)
  ultimately show ?thesis
    by (simp add: manifestsMatch_def bind_exn_def keys)
qed

lemma rebuild_saves_manifest:
  "rebuild P config env m w = Inr w1 \<Longrightarrow>
     fs w1 (manifestPath config) = Some (JSON_stringify P m @ NL)"
  by (auto simp: rebuild_def bind_exn_def saveManifest_def writeFileSync_def split_beta
      split: sum.splits)

lemma loadManifest_parsed:
  "fs w (manifestPath config) = Some t \<Longrightarrow> JSON_parse P t = Some v \<Longrightarrow>
     loadManifest P config w = (v, emit (ReadFile (manifestPath config)) w)"
  by (simp add: loadManifest_def)

lemma loadManifest_cases:
  "fst (loadManifest P config w) = JObject [] \<or>
   (\<exists>t. fs w (manifestPath config) = Some t \<and>
        JSON_parse P t = Some (fst (loadManifest P config w)))"
  by (auto simp: loadManifest_def split: option.splits)


lemma second_run_nothing_changed:
  assumes pl: "projectLoads env"
    and files: "scanEndpointFiles config env \<noteq> []"
    and mp: "fs v (manifestPath config) = Some t"
    and parse: "JSON_parse P t = Some old"
    and build: "buildManifest P (scanEndpointFiles config env) config w = Inr (m, w')"
    and same: "\<forall>f \<in> set (scanEndpointFiles config env).
                 fs v (path_join P (endpointsDir config) f) =
                 fs w (path_join P (endpointsDir config) f)"
    and match: "manifestsMatch old m = Inr True"
  shows "runGenerate P config env v =
     Inr (v\<lparr> trace := trace v @ ReadFile (manifestPath config) #
            map (\<lambda>f. ReadFile (path_join P (endpointsDir config) f)) (scanEndpointFiles config env) @
            [Log ''ERTK: Nothing changed.''] \<rparr>)"
proof -
  let ?v1 = "emit (ReadFile (manifestPath config)) v"
  have lm: "loadManifest P config v = (old, ?v1)"
    using mp parse by (rule loadManifest_parsed)
  have "\<forall>f \<in> set (scanEndpointFiles config env).
          fs ?v1 (path_join P (endpointsDir config) f) = fs w (path_join P (endpointsDir config) f)"
    using same by simp
  from buildManifest_same_sources[OF build this]
  have bm: "buildManifest P (scanEndpointFiles config env) config ?v1 =
      Inr (m, ?v1\<lparr> trace := trace ?v1 @
         map (\<lambda>f. ReadFile (path_join P (endpointsDir config) f)) (scanEndpointFiles config env) \<rparr>)" .
  show ?thesis
    using pl files by (simp add: runGenerate_def lm bm match bind_exn_def)
qed

text \<open>
  Claim C2. If a one-shot generation has returned, no source file has changed since (the
  listing is the same and the run did not overwrite a source file), and the saved manifest
  parses back to what was saved, then a second run returns after reading the manifest and
  hashing the sources: it prints that nothing changed, adds no file to the project, creates
  no directory and writes no file, so the files on disk, the manifest among them, are
  byte for byte what they were. With no source file at all, the second run stops at once.
\<close>

theorem runGenerate_idempotent:
  assumes first: "runGenerate P config env w = Inr w1"
    and unchanged: "\<forall>f \<in> set (scanEndpointFiles config env).
                      fs w1 (path_join P (endpointsDir config) f) =
                      fs w (path_join P (endpointsDir config) f)"
    and json: "\<forall>m w'. buildManifest P (scanEndpointFiles config env) config
                          (snd (loadManifest P config w)) = Inr (m, w') \<longrightarrow>
                 (\<exists>obj. JSON_parse P (JSON_stringify P m @ NL) = Some (JObject obj) \<and>
                        distinct (map fst obj) \<and>
                        map_of obj = map_of (map (\<lambda>(k, h). (k, JString h)) m))"
  shows "\<exists>w2. runGenerate P config env w1 = Inr w2 \<and> fs w2 = fs w1 \<and>
           trace w2 = trace w1 @
             (if scanEndpointFiles config env = [] then [Log ''ERTK: No endpoint files found.'']
              else ReadFile (manifestPath config) #
                   map (\<lambda>f. ReadFile (path_join P (endpointsDir config) f))
                     (scanEndpointFiles config env) @
                   [Log ''ERTK: Nothing changed.''])"
proof -
  let ?files = "scanEndpointFiles config env"
  from first have pl: "projectLoads env"
    by (auto simp: runGenerate_def split: if_splits)
  show ?thesis
  proof (cases "?files = []")
    case True
    then show ?thesis using pl by (simp add: runGenerate_def)
  next
    case False
    obtain old wa where lm: "loadManifest P config w = (old, wa)"
      by (cases "loadManifest P config w")
    then have old: "old = fst (loadManifest P config w)" and wa: "wa = snd (loadManifest P config w)"
      by simp_all
    have fs_wa: "fs wa = fs w" unfolding wa by (rule loadManifest_fs)
    from first pl False lm obtain m wb where
      bm: "buildManifest P ?files config wa = Inr (m, wb)"
      by (auto simp: runGenerate_def bind_exn_def split: sum.splits)
    from first pl False lm bm obtain b where
      mm: "manifestsMatch old m = Inr b"
      by (auto simp: runGenerate_def bind_exn_def split: sum.splits)
    from first pl False lm bm mm have fin:
      "(if b then Inr (emit (Log ''ERTK: Nothing changed.'') wb)
        else rebuild P config env m wb) = Inr w1"
      by (simp add: runGenerate_def bind_exn_def)
    have dm: "distinct (map fst m)" using bm by (rule buildManifest_distinct)
    have src: "\<forall>f \<in> set ?files. fs w1 (path_join P (endpointsDir config) f) =
                 fs wa (path_join P (endpointsDir config) f)"
      using unchanged fs_wa by simp
    have "runGenerate P config env w1 =
       Inr (w1\<lparr> trace := trace w1 @ ReadFile (manifestPath config) #
            map (\<lambda>f. ReadFile (path_join P (endpointsDir config) f)) ?files @
            [Log ''ERTK: Nothing changed.''] \<rparr>)"
    proof (cases b)
      case True
      have "m \<noteq> []"
      proof -
        from bm have "buildManifest_from P config ?files [] wa = Inr (m, wb)"
          by (simp add: buildManifest_def)
        from buildManifest_from_keys[OF this] False show ?thesis by auto
      qed
      then have "old \<noteq> JObject []"
        using manifestsMatch_empty[of m] mm True by auto
      with loadManifest_cases[of P config w] old obtain t where
        t: "fs w (manifestPath config) = Some t" "JSON_parse P t = Some old"
        by auto
      from fin True have w1: "w1 = emit (Log ''ERTK: Nothing changed.'') wb" by simp
      from bm have "buildManifest_from P config ?files [] wa = Inr (m, wb)"
        by (simp add: buildManifest_def)
      with buildManifest_from_readable[OF buildManifest_from_Inr_readable[OF this], of "[]"]
      have "fs wb = fs wa" by auto
      with w1 fs_wa have "fs w1 = fs w" by simp
      with t have t1: "fs w1 (manifestPath config) = Some t" by simp
      from mm True have "manifestsMatch old m = Inr True" by simp
      from second_run_nothing_changed[OF pl False t1 t(2) bm src this] show ?thesis .
    next
      case False
      with fin have rb: "rebuild P config env m wb = Inr w1" by simp
      from rebuild_saves_manifest[OF rb]
      have t1: "fs w1 (manifestPath config) = Some (JSON_stringify P m @ NL)" .
      from json bm wa obtain obj where
        p: "JSON_parse P (JSON_stringify P m @ NL) = Some (JObject obj)" and
        d: "distinct (map fst obj)" and
        e: "map_of obj = map_of (map (\<lambda>(k, h). (k, JString h)) m)"
        by blast
      from manifestsMatch_same[OF d dm e]
      have "manifestsMatch (JObject obj) m = Inr True" .
      from second_run_nothing_changed[OF pl \<open>?files \<noteq> []\<close> t1 p bm src this] show ?thesis .
    qed
    then show ?thesis using \<open>?files \<noteq> []\<close> by simp
  qed
qed


theorem runGenerate_idempotent_witness:
  "\<exists>w1 w2. runGenerate example_platform example_config example_environment example_world = Inr w1 \<and>
      runGenerate example_platform example_config example_environment w1 = Inr w2 \<and>
      fs w2 = fs w1 \<and>
      fs w1 (manifestPath example_config) = Some (''tasks/create.ts=77;tasks/list.ts=114;'' @ NL) \<and>
      trace w2 = trace w1 @
        [ReadFile ''/proj/src/generated/.ertk-manifest.json'',
         ReadFile ''/proj/src/endpoints/tasks/create.ts'',
         ReadFile ''/proj/src/endpoints/tasks/list.ts'',
         Log ''ERTK: Nothing changed.'']"
proof -
  let ?P = example_platform and ?c = example_config and ?e = example_environment
  let ?files = "[''tasks/create.ts'', ''tasks/list.ts'']"
  let ?m = "[(''tasks/create.ts'', ''77''), (''tasks/list.ts'', ''114'')]"
  have sc: "scanEndpointFiles ?c ?e = ?files"
    by code_simp
  have run: "case runGenerate ?P ?c ?e example_world of
        Inl _ \<Rightarrow> False
      | Inr w1 \<Rightarrow>
          list_all (\<lambda>f. fs w1 (path_join ?P (endpointsDir ?c) f) =
                        fs example_world (path_join ?P (endpointsDir ?c) f)) ?files \<and>
          fs w1 (manifestPath ?c) = Some (''tasks/create.ts=77;tasks/list.ts=114;'' @ NL)"
    by code_simp
  then obtain w1 where
    first: "runGenerate ?P ?c ?e example_world = Inr w1" and
    unchanged: "\<forall>f \<in> set (scanEndpointFiles ?c ?e).
       fs w1 (path_join ?P (endpointsDir ?c) f) = fs example_world (path_join ?P (endpointsDir ?c) f)" and
    saved: "fs w1 (manifestPath ?c) = Some (''tasks/create.ts=77;tasks/list.ts=114;'' @ NL)"
    unfolding sc by (cases "runGenerate ?P ?c ?e example_world") (auto simp: list_all_iff)
  have h: "md5_hex ?P create_ts = ''77''" "md5_hex ?P list_ts = ''114''"
    by code_simp+
  have pj: "path_join ?P (endpointsDir ?c) ''tasks/create.ts'' = ''/proj/src/endpoints/tasks/create.ts''"
    "path_join ?P (endpointsDir ?c) ''tasks/list.ts'' = ''/proj/src/endpoints/tasks/list.ts''"
    by code_simp+
  have built: "buildManifest ?P ?files ?c example_world =
      Inr (?m, example_world\<lparr> trace := [ReadFile ''/proj/src/endpoints/tasks/create.ts'',
                                           ReadFile ''/proj/src/endpoints/tasks/list.ts''] \<rparr>)"
    by (simp add: buildManifest_def hashFile_def bind_exn_def emit_def example_world_def h pj)
  have lw: "loadManifest ?P ?c example_world = (JObject [], example_world)"
    by (simp add: loadManifest_def example_world_def example_config_def)
  have codec: "JSON_parse ?P (JSON_stringify ?P ?m @ NL) =
      Some (JObject [(''tasks/create.ts'', JString ''77''), (''tasks/list.ts'', JString ''114'')])"
    by code_simp
  have json: "\<forall>m w'. buildManifest ?P (scanEndpointFiles ?c ?e) ?c
                          (snd (loadManifest ?P ?c example_world)) = Inr (m, w') \<longrightarrow>
                 (\<exists>obj. JSON_parse ?P (JSON_stringify ?P m @ NL) = Some (JObject obj) \<and>
                        distinct (map fst obj) \<and>
                        map_of obj = map_of (map (\<lambda>(k, h). (k, JString h)) m))"
    unfolding sc lw using built codec by auto
  from runGenerate_idempotent[OF first unchanged json] obtain w2 where
    second: "runGenerate ?P ?c ?e w1 = Inr w2" and same: "fs w2 = fs w1" and
    tr: "trace w2 = trace w1 @
             (if scanEndpointFiles ?c ?e = [] then [Log ''ERTK: No endpoint files found.'']
              else ReadFile (manifestPath ?c) #
                   map (\<lambda>f. ReadFile (path_join ?P (endpointsDir ?c) f)) (scanEndpointFiles ?c ?e) @
                   [Log ''ERTK: Nothing changed.''])"
    by blast
  have "trace w2 = trace w1 @
        [ReadFile ''/proj/src/generated/.ertk-manifest.json'',
         ReadFile ''/proj/src/endpoints/tasks/create.ts'',
         ReadFile ''/proj/src/endpoints/tasks/list.ts'',
         Log ''ERTK: Nothing changed.'']"
    unfolding tr sc by (simp add: example_config_def example_platform_def)
  with first second same saved show ?thesis by blast
qed

section \<open>Properties of the descriptor extraction\<close>

text \<open>
  Claim C3. The extractor is to return a descriptor or \<^verbatim>\<open>null\<close> with a warning for every
  syntax tree and never to throw. It throws for a file whose \<^verbatim>\<open>name\<close> is a shorthand
  property: \<^verbatim>\<open>asKindOrThrow\<close> is applied to the member without a look at its kind, where
  the configuration argument and the \<^verbatim>\<open>tags\<close> initializer are checked first.
\<close>

theorem parseEndpointFile_shorthand_name_throws:
  "parseEndpointFile example_platform [''/proj/src/endpoints/user.ts'' \<mapsto> shorthand_ts]
     ''user.ts'' example_config = Inl WrongKindError"
  by (simp add: parseEndpointFile_def example_platform_def example_config_def
      example_parser_def shorthand_ts_def list_ts_def create_ts_def shorthand_ts_tree_def
      parseConfigObject_def extractName_def getProperty_def initializerText_def bind_exn_def)

text \<open>What \<^verbatim>\<open>extractTagTypes\<close> adds to the set: the captured tokens whose first character
  is not a lower-case letter.\<close>

lemma toUpperCase_char_fixed: "toUpperCase_char c = c \<longleftrightarrow> \<not> is_lower c"
proof (cases "is_lower c")
  case False
  then show ?thesis by (simp add: toUpperCase_char_def)
next
  case True
  then have r: "97 \<le> (of_char c :: nat)" "(of_char c :: nat) \<le> 122"
    by (simp_all add: is_lower_def less_eq_char_def)
  have "char_of (of_char c - (32::nat)) \<noteq> c"
  proof
    assume "char_of (of_char c - (32::nat)) = c"
    then have "(of_char (char_of (of_char c - (32::nat))) :: nat) = of_char c" by simp
    with r show False by simp
  qed
  with True show ?thesis by (simp add: toUpperCase_char_def)
qed

lemma set_add_set: "set (set_add vs v) = insert v (set vs)"
  by (auto simp: set_add_def)

lemma extractTagTypes_tokens:
  "set (foldl (\<lambda>tags m1. case m1 of [] \<Rightarrow> tags
                 | c # _ \<Rightarrow> if [c] = toUpperCase [c] then set_add tags m1 else tags) tags toks) =
   set tags \<union> {t \<in> set toks. \<exists>c r. t = c # r \<and> \<not> is_lower c}"
proof (induction toks arbitrary: tags)
  case Nil
  then show ?case by simp
next
  case (Cons t toks)
  show ?case
  proof (cases t)
    case Nil
    with Cons show ?thesis by auto
  next
    case (Cons c r)
    have "([c] = toUpperCase [c]) = (\<not> is_lower c)"
      using toUpperCase_char_fixed[of c] by (auto simp: toUpperCase_def)
    with Cons Cons.IH show ?thesis
      by (auto simp: set_add_set)
  qed
qed

lemma extractTagTypes_set:
  "src \<noteq> [] \<Longrightarrow>
   set (extractTagTypes (Some src) tags) =
     set tags \<union> {t \<in> set (quoted_tokens src). \<exists>c r. t = c # r \<and> \<not> is_lower c}"
  by (simp add: extractTagTypes_def extractTagTypes_tokens)

text \<open>
  Claim C8. A quoted token is to be a tag type exactly when its first character is an
  upper-case letter. The test compares the first character with its upper-case form, which
  also holds for a digit and for an underscore: the tokens \<^verbatim>\<open>1\<close> and \<^verbatim>\<open>_draft\<close> are added
  to the tag types, \<^verbatim>\<open>list\<close> is not.
\<close>

theorem extractTagTypes_non_letter_tokens:
  \<open>extractTagTypes (Some ''[{ type: "Task", id: "1" }, "_draft", "list"]'') [] =
     [''Task'', ''1'', ''_draft'']\<close>
  by code_simp




lemma of_char_digit_char: "d < 10 \<Longrightarrow> of_char (digit_char d) = 48 + d"
  by (simp add: digit_char_def)

lemma is_digit_iff: "is_digit c \<longleftrightarrow> 48 \<le> (of_char c :: nat) \<and> (of_char c :: nat) \<le> 57"
  by (simp add: is_digit_def less_eq_char_def)

lemma is_digit_digit_char: "d < 10 \<Longrightarrow> is_digit (digit_char d)"
  by (simp add: is_digit_iff of_char_digit_char)

lemma digit_value_digit_char: "d < 10 \<Longrightarrow> digit_value (digit_char d) = d"
  by (simp add: digit_value_def of_char_digit_char)

lemma is_digit_not_space_sign:
  "is_digit c \<Longrightarrow> \<not> is_white_space c \<and> c \<noteq> CHR ''-'' \<and> c \<noteq> CHR ''+''"
  by (auto simp: is_digit_iff is_white_space_def)

lemma nat_to_string_digits: "list_all is_digit (nat_to_string n)"
proof (induction n rule: nat_to_string.induct)
  case (1 n)
  show ?case
  proof (cases "n < 10")
    case True
    then show ?thesis by (subst nat_to_string.simps) (simp add: is_digit_digit_char)
  next
    case False
    with 1 show ?thesis by (subst nat_to_string.simps) (simp add: is_digit_digit_char)
  qed
qed

lemma nat_to_string_not_Nil: "nat_to_string n \<noteq> []"
  by (subst nat_to_string.simps) simp

lemma digits_value_snoc: "digits_value (ds @ [c]) = 10 * digits_value ds + digit_value c"
  by (simp add: digits_value_def)

lemma digits_value_nat_to_string: "digits_value (nat_to_string n) = n"
proof (induction n rule: nat_to_string.induct)
  case (1 n)
  show ?case
  proof (cases "n < 10")
    case True
    then show ?thesis
      by (subst nat_to_string.simps) (simp add: digits_value_def digit_value_digit_char)
  next
    case False
    with 1 show ?thesis
      by (subst nat_to_string.simps) (simp add: digits_value_snoc digit_value_digit_char)
  qed
qed

lemma takeWhile_all: "list_all P xs \<Longrightarrow> takeWhile P xs = xs"
  by (induction xs) auto

lemma parseInt10_digits:
  assumes "list_all is_digit ds" and "ds \<noteq> []"
  shows "parseInt10 ds = Some (int (digits_value ds))"
    and "parseInt10 (''-'' @ ds) = Some (- int (digits_value ds))"
proof -
  obtain c r where ds: "ds = c # r" using assms(2) by (cases ds) auto
  with assms(1) have c: "is_digit c" by simp
  have tw: "takeWhile is_digit ds = ds" using assms(1) by (rule takeWhile_all)
  have dw: "dropWhile is_white_space ds = ds"
    using is_digit_not_space_sign[OF c] ds by simp
  show "parseInt10 ds = Some (int (digits_value ds))"
    unfolding parseInt10_def dw using is_digit_not_space_sign[OF c] tw assms(2) ds
    by (simp add: Let_def)
  have "\<not> is_white_space (CHR ''-'')" by (simp add: is_white_space_def)
  then show "parseInt10 (''-'' @ ds) = Some (- int (digits_value ds))"
    unfolding parseInt10_def by (simp add: Let_def tw assms(2))
qed


lemma parseInt10_minus_nat_to_string: "parseInt10 (''-'' @ nat_to_string n) = Some (- int n)"
  using parseInt10_digits(2)[OF nat_to_string_digits nat_to_string_not_Nil, of n]
  by (simp add: digits_value_nat_to_string)












section \<open>Properties of the route grouping\<close>

lemma group_inv_distinct: "group_inv groups eps \<Longrightarrow> distinct (map fst groups)"
  by (simp add: group_inv_def)

lemma group_inv_None:
  "group_inv groups eps \<Longrightarrow> map_of groups rp = None \<Longrightarrow> e \<in> set eps \<Longrightarrow> hasHandler e \<Longrightarrow>
     routePath e \<noteq> rp"
  by (auto simp: group_inv_def)

lemma group_inv_Some:
  "group_inv groups eps \<Longrightarrow> map_of groups rp = Some g \<Longrightarrow>
     distinct (map fst (methods g)) \<and>
     map_of (methods g) M =
       find (\<lambda>e. hasHandler e \<and> routePath e = rp \<and> toUpperCase (method e) = M) (rev eps)"
  by (simp add: group_inv_def)

lemma find_SomeD: "find Q xs = Some x \<Longrightarrow> Q x \<and> x \<in> set xs"
  by (induction xs) (auto split: if_splits)

lemma find_None_handlers:
  "\<forall>e \<in> set eps. hasHandler e \<longrightarrow> routePath e \<noteq> rp \<Longrightarrow>
     find (\<lambda>e. hasHandler e \<and> routePath e = rp \<and> toUpperCase (method e) = M) (rev eps) = None"
  by (auto simp: find_None_iff)

lemma group_inv_step:
  assumes inv: "group_inv groups eps"
  shows "group_inv (groupEndpoint P r groups ep) (eps @ [ep])"
proof (cases "hasHandler ep")
  case False
  then have same: "groupEndpoint P r groups ep = groups"
    by (simp add: groupEndpoint_def)
  show ?thesis
    unfolding same group_inv_def
  proof (intro conjI allI impI ballI)
    show "distinct (map fst groups)" using inv by (rule group_inv_distinct)
  next
    fix rp e
    assume "map_of groups rp = None" "e \<in> set (eps @ [ep])" "hasHandler e"
    with False have "e \<in> set eps" by auto
    with group_inv_None[OF inv \<open>map_of groups rp = None\<close>] \<open>hasHandler e\<close>
    show "routePath e \<noteq> rp" by blast
  next
    fix rp g assume g: "map_of groups rp = Some g"
    from group_inv_Some[OF inv g] show "distinct (map fst (methods g))" by simp
    fix M
    from group_inv_Some[OF inv g, of M] False
    show "map_of (methods g) M =
       find (\<lambda>e. hasHandler e \<and> routePath e = rp \<and> toUpperCase (method e) = M)
         (rev (eps @ [ep]))"
      by simp
  qed
next
  case True
  define rp0 where "rp0 = routePath ep"
  define fresh where "fresh = \<lparr> group_routePath = rp0,
      appRouteDir = path_join P (dir r) (replace_api_prefix rp0), methods = [] \<rparr>"
  define groups1 where
    "groups1 = (if map_of groups rp0 = None then AList.update rp0 fresh groups else groups)"
  define g0 where "g0 = (case map_of groups rp0 of None \<Rightarrow> fresh | Some g \<Rightarrow> g)"
  define upd :: "route_group \<Rightarrow> route_group" where
    "upd = (\<lambda>g. g\<lparr> methods := AList.update (toUpperCase (method ep)) ep (methods g) \<rparr>)"
  have step: "groupEndpoint P r groups ep = AList.map_entry rp0 upd groups1"
    using True by (simp add: groupEndpoint_def rp0_def fresh_def groups1_def upd_def Let_def)
  have dist: "distinct (map fst groups)" using inv by (rule group_inv_distinct)
  have dist1: "distinct (map fst groups1)"
    using dist by (simp add: groups1_def distinct_update)
  have look1: "map_of groups1 rp = (if rp = rp0 then Some g0 else map_of groups rp)" for rp
    by (auto simp: groups1_def g0_def update_conv' split: option.splits)
  have look: "map_of (AList.map_entry rp0 upd groups1) rp =
      (if rp = rp0 then Some (upd g0) else map_of groups rp)" for rp
    by (simp add: map_of_map_entry look1)
  have g0_facts: "distinct (map fst (methods g0)) \<and> map_of (methods g0) M =
      find (\<lambda>e. hasHandler e \<and> routePath e = rp0 \<and> toUpperCase (method e) = M) (rev eps)" for M
  proof (cases "map_of groups rp0")
    case None
    then have "\<forall>e \<in> set eps. hasHandler e \<longrightarrow> routePath e \<noteq> rp0"
      using group_inv_None[OF inv] by blast
    from find_None_handlers[OF this] None show ?thesis
      by (simp add: g0_def fresh_def)
  next
    case (Some g)
    from group_inv_Some[OF inv Some, of M] Some show ?thesis
      by (simp add: g0_def)
  qed
  have "group_inv (AList.map_entry rp0 upd groups1) (eps @ [ep])"
    unfolding group_inv_def
  proof (intro conjI allI impI ballI)
    show "distinct (map fst (AList.map_entry rp0 upd groups1))"
      using dist1 by (rule distinct_map_entry)
  next
    fix rp e
    assume n: "map_of (AList.map_entry rp0 upd groups1) rp = None"
      and e: "e \<in> set (eps @ [ep])" "hasHandler e"
    from n have ne: "rp \<noteq> rp0" and n0: "map_of groups rp = None"
      by (auto simp: look split: if_splits)
    show "routePath e \<noteq> rp"
    proof (cases "e = ep")
      case True
      with ne show ?thesis by (simp add: rp0_def)
    next
      case False
      with e have "e \<in> set eps" by simp
      with group_inv_None[OF inv n0] e(2) show ?thesis by blast
    qed
  next
    fix rp g assume g: "map_of (AList.map_entry rp0 upd groups1) rp = Some g"
    show "distinct (map fst (methods g))"
    proof (cases "rp = rp0")
      case True
      with g have "g = upd g0" by (simp add: look)
      then show ?thesis using g0_facts by (simp add: upd_def distinct_update)
    next
      case False
      with g have "map_of groups rp = Some g" by (simp add: look)
      from group_inv_Some[OF inv this] show ?thesis by simp
    qed
    fix M
    show "map_of (methods g) M =
       find (\<lambda>e. hasHandler e \<and> routePath e = rp \<and> toUpperCase (method e) = M)
         (rev (eps @ [ep]))"
    proof (cases "rp = rp0")
      case True
      with g have "g = upd g0" by (simp add: look)
      then show ?thesis
        using \<open>hasHandler ep\<close> g0_facts[of M] True
        by (auto simp: upd_def update_conv' rp0_def)
    next
      case False
      with g have "map_of groups rp = Some g" by (simp add: look)
      from group_inv_Some[OF inv this, of M] False show ?thesis
        by (simp add: rp0_def)
    qed
  qed
  then show ?thesis by (simp add: step)
qed

lemma group_inv_foldl:
  "group_inv groups eps \<Longrightarrow> group_inv (foldl (groupEndpoint P r) groups eps') (eps @ eps')"
proof (induction eps' arbitrary: groups eps)
  case Nil
  then show ?case by simp
next
  case (Cons e eps')
  from Cons.IH[OF group_inv_step[OF Cons.prems, of P r e]] show ?case by simp
qed

lemma group_inv_result:
  "routes config = Some r \<Longrightarrow> group_inv (groupEndpointsByRoute P endpoints config) endpoints"
  using group_inv_foldl[of "[]" "[]" P r endpoints]
  by (simp add: groupEndpointsByRoute_def group_inv_def)

text \<open>
  Claim C5. In the output of the route grouper every member of every group has a handler;
  the route paths are distinct and the methods of a group are distinct, so a group maps
  an upper-case method to at most one descriptor; that descriptor is the last one of the
  input with a handler, that route path and that method (last write wins); the function
  is total, so a collision raises no error. With route generation configured, the lookup of
  a route path and a method is exactly that last descriptor.
\<close>

theorem groupEndpointsByRoute_groups:
  "distinct (map fst (groupEndpointsByRoute P endpoints config)) \<and>
   (\<forall>(rp, g) \<in> set (groupEndpointsByRoute P endpoints config).
      distinct (map fst (methods g)) \<and>
      (\<forall>(M, ep) \<in> set (methods g).
         hasHandler ep \<and> ep \<in> set endpoints \<and> routePath ep = rp \<and>
         toUpperCase (method ep) = M \<and>
         find (\<lambda>e. hasHandler e \<and> routePath e = rp \<and> toUpperCase (method e) = M)
           (rev endpoints) = Some ep)) \<and>
   (routes config \<noteq> None \<longrightarrow>
      (\<forall>rp M. (case map_of (groupEndpointsByRoute P endpoints config) rp of
                  None \<Rightarrow> None | Some g \<Rightarrow> map_of (methods g) M) =
         find (\<lambda>e. hasHandler e \<and> routePath e = rp \<and> toUpperCase (method e) = M)
           (rev endpoints)))"
proof (cases "routes config")
  case None
  then show ?thesis by (simp add: groupEndpointsByRoute_def)
next
  case (Some r)
  let ?G = "groupEndpointsByRoute P endpoints config"
  let ?last = "\<lambda>rp M. find (\<lambda>e. hasHandler e \<and> routePath e = rp \<and> toUpperCase (method e) = M)
           (rev endpoints)"
  have inv: "group_inv ?G endpoints" using Some by (rule group_inv_result)
  then have dist: "distinct (map fst ?G)" by (simp add: group_inv_def)
  have some: "distinct (map fst (methods g)) \<and> (\<forall>M. map_of (methods g) M = ?last rp M)"
    if "map_of ?G rp = Some g" for rp g
    using group_inv_Some[OF inv that] by simp
  have none: "?last rp M = None" if "map_of ?G rp = None" for rp M
  proof -
    from group_inv_None[OF inv that]
    have "\<forall>e \<in> set endpoints. hasHandler e \<longrightarrow> routePath e \<noteq> rp" by blast
    then show ?thesis by (rule find_None_handlers)
  qed
  have members: "hasHandler ep \<and> ep \<in> set endpoints \<and> routePath ep = rp \<and>
         toUpperCase (method ep) = M \<and> ?last rp M = Some ep"
    if "(rp, g) \<in> set ?G" and "(M, ep) \<in> set (methods g)" for rp g M ep
  proof -
    from that(1) dist have g: "map_of ?G rp = Some g" by simp
    from some[OF g] have "distinct (map fst (methods g))" by simp
    with that(2) have "map_of (methods g) M = Some ep" by simp
    with some[OF g] have l: "?last rp M = Some ep" by simp
    from find_SomeD[OF l] show ?thesis using l by simp
  qed
  have full: "(case map_of ?G rp of None \<Rightarrow> None | Some g \<Rightarrow> map_of (methods g) M) = ?last rp M"
    for rp M
    using some[of rp] none[of rp M] by (cases "map_of ?G rp") auto
  show ?thesis
  proof (intro conjI)
    show "distinct (map fst ?G)" by (rule dist)
    show "\<forall>(rp, g) \<in> set ?G. distinct (map fst (methods g)) \<and>
      (\<forall>(M, ep) \<in> set (methods g).
         hasHandler ep \<and> ep \<in> set endpoints \<and> routePath ep = rp \<and>
         toUpperCase (method ep) = M \<and> ?last rp M = Some ep)"
    proof (intro ballI, clarify, intro conjI ballI)
      fix rp g assume m: "(rp, g) \<in> set ?G"
      with dist have "map_of ?G rp = Some g" by simp
      from some[OF this] show "distinct (map fst (methods g))" by simp
      fix x assume x: "x \<in> set (methods g)"
      obtain M ep where xeq: "x = (M, ep)" by (cases x)
      from x xeq have "(M, ep) \<in> set (methods g)" by simp
      from members[OF m this] show "case x of (M, ep) \<Rightarrow>
         hasHandler ep \<and> ep \<in> set endpoints \<and> routePath ep = rp \<and>
         toUpperCase (method ep) = M \<and> ?last rp M = Some ep"
        by (simp add: xeq)
    qed
    show "routes config \<noteq> None \<longrightarrow>
      (\<forall>rp M. (case map_of ?G rp of None \<Rightarrow> None | Some g \<Rightarrow> map_of (methods g) M) = ?last rp M)"
      using full by simp
  qed
qed


theorem groupEndpointsByRoute_groups_witness:
  "groupEndpointsByRoute example_platform
     [listTasks_endpoint, createTask_endpoint, external_endpoint, getTasks_endpoint] example_config =
     [(''/api/tasks'', \<lparr> group_routePath = ''/api/tasks'', appRouteDir = ''/proj/src/app/api/tasks'',
         methods = [(''GET'', getTasks_endpoint), (''POST'', createTask_endpoint)] \<rparr>)] \<and>
   routes example_config \<noteq> None \<and>
   hasHandler listTasks_endpoint \<and> \<not> hasHandler external_endpoint \<and>
   find (\<lambda>e. hasHandler e \<and> routePath e = ''/api/tasks'' \<and> toUpperCase (method e) = ''GET'')
     (rev [listTasks_endpoint, createTask_endpoint, external_endpoint, getTasks_endpoint]) =
     Some getTasks_endpoint"
proof -
  let ?eps = "[listTasks_endpoint, createTask_endpoint, external_endpoint, getTasks_endpoint]"
  have ev: "groupEndpointsByRoute example_platform ?eps example_config =
     [(''/api/tasks'', \<lparr> group_routePath = ''/api/tasks'', appRouteDir = ''/proj/src/app/api/tasks'',
         methods = [(''GET'', getTasks_endpoint), (''POST'', createTask_endpoint)] \<rparr>)]"
    by code_simp
  have r: "routes example_config \<noteq> None" by (simp add: example_config_def)
  have h: "hasHandler listTasks_endpoint" "\<not> hasHandler external_endpoint"
    by (simp_all add: listTasks_endpoint_def external_endpoint_def)
  from groupEndpointsByRoute_groups[of example_platform ?eps example_config]
  have "\<forall>(rp, g) \<in> set (groupEndpointsByRoute example_platform ?eps example_config).
      \<forall>(M, ep) \<in> set (methods g).
         find (\<lambda>e. hasHandler e \<and> routePath e = rp \<and> toUpperCase (method e) = M)
           (rev ?eps) = Some ep"
    by fast
  then have "find (\<lambda>e. hasHandler e \<and> routePath e = ''/api/tasks'' \<and>
      toUpperCase (method e) = ''GET'') (rev ?eps) = Some getTasks_endpoint"
    unfolding ev by simp
  with ev r h show ?thesis by simp
qed

section \<open>Properties of the code generation\<close>

lemma hasAnyRetries_iff:
  "hasAnyRetries endpoints \<longleftrightarrow> (\<exists>ep \<in> set endpoints. \<exists>n. maxRetries ep = Some n \<and> n > 0)"
  by (auto simp: hasAnyRetries_def list_ex_iff split: option.splits)

lemma generateOnQueryStarted_maxRetries:
  "generateOnQueryStarted P (ep\<lparr> maxRetries := r \<rparr>) = generateOnQueryStarted P ep"
  by (simp add: generateOnQueryStarted_def)

lemma generateEndpointDef_split:
  "generateEndpointDef P ep =
     butlast (generateEndpointDef P (ep\<lparr> maxRetries := None \<rparr>)) @
     (case maxRetries ep of
        None \<Rightarrow> []
      | Some n \<Rightarrow> if n > 0
          then [TAB @ TAB @ TAB @ ''extraOptions: { maxRetries: '' @ int_to_string n @ '' },'']
          else []) @
     [TAB @ TAB @ ''}),'']"
  by (simp add: generateEndpointDef_def generateOnQueryStarted_maxRetries Let_def butlast_append
      split: option.splits)

lemma wrapped_neq: "pre @ ''retry('' @ b @ suf1 \<noteq> pre @ b @ '',''" if "length suf1 > 0"
proof
  assume "pre @ ''retry('' @ b @ suf1 = pre @ b @ '',''"
  then have "length (pre @ ''retry('' @ b @ suf1) = length (pre @ b @ '','')" by (rule arg_cong)
  with that show False by simp
qed

lemma baseQuery_lines_differ:
  "TAB @ ''baseQuery: retry('' @ b @ '', { maxRetries: 0 }),'' \<noteq> TAB @ ''baseQuery: '' @ b @ '',''"
  using wrapped_neq[of "'', { maxRetries: 0 }),''" "TAB @ ''baseQuery: ''" b] by simp

lemma generateApiTs_lines_import:
  \<open>generateApiTs_lines P endpoints config ! 1 =
     (if hasAnyRetries endpoints
      then ''import { createApi, fetchBaseQuery, retry } from "@reduxjs/toolkit/query/react";''
      else ''import { createApi, fetchBaseQuery } from "@reduxjs/toolkit/query/react";'')\<close>
  by (simp add: generateApiTs_lines_def)

lemma generateApiTs_lines_baseQuery:
  \<open>generateApiTs_lines P endpoints config ! (length (typeImportLines endpoints) + 5) =
     (if hasAnyRetries endpoints
      then TAB @ ''baseQuery: retry('' @ baseQuerySource config @ '', { maxRetries: 0 }),''
      else TAB @ ''baseQuery: '' @ baseQuerySource config @ '','')\<close>
  by (simp add: generateApiTs_lines_def nth_append)

lemma lines_shape:
  "\<exists>pre post. [a0, a1] @ t @ [b0, b1, b2, b3, b4, b5, b6, b7] @ defs @ c @ h @ e =
       pre @ defs @ post \<and> length pre = length t + 10"
  by (rule exI[of _ "[a0, a1] @ t @ [b0, b1, b2, b3, b4, b5, b6, b7]"],
      rule exI[of _ "c @ h @ e"]) simp

lemma generateApiTs_lines_endpoints:
  "\<exists>pre post. generateApiTs_lines P endpoints config =
       pre @ concat (map (generateEndpointDef P) endpoints) @ post \<and>
     length pre = length (typeImportLines endpoints) + 10"
  unfolding generateApiTs_lines_def by (rule lines_shape)

text \<open>
  Claim C6. The second line of the data-access artifact imports \<^verbatim>\<open>retry\<close>, and the base
  query line wraps the base query in \<^verbatim>\<open>retry(..., { maxRetries: 0 })\<close>, if and only if some
  descriptor has a positive retry count; otherwise both are the plain forms. The
  endpoint definitions follow the header in the order of the descriptors, and the
  definition of a descriptor is the definition without a retry count with the
  \<^verbatim>\<open>extraOptions\<close> line inserted before its closing line exactly when the count is positive.
\<close>

theorem generateApiTs_retry:
  \<open>(generateApiTs_lines P endpoints config ! 1 =
       ''import { createApi, fetchBaseQuery, retry } from "@reduxjs/toolkit/query/react";'' \<longleftrightarrow>
      (\<exists>ep \<in> set endpoints. \<exists>n. maxRetries ep = Some n \<and> n > 0)) \<and>
   (generateApiTs_lines P endpoints config ! 1 =
       ''import { createApi, fetchBaseQuery } from "@reduxjs/toolkit/query/react";'' \<longleftrightarrow>
      \<not> (\<exists>ep \<in> set endpoints. \<exists>n. maxRetries ep = Some n \<and> n > 0)) \<and>
   (generateApiTs_lines P endpoints config ! (length (typeImportLines endpoints) + 5) =
       TAB @ ''baseQuery: retry('' @ baseQuerySource config @ '', { maxRetries: 0 }),'' \<longleftrightarrow>
      (\<exists>ep \<in> set endpoints. \<exists>n. maxRetries ep = Some n \<and> n > 0)) \<and>
   (generateApiTs_lines P endpoints config ! (length (typeImportLines endpoints) + 5) =
       TAB @ ''baseQuery: '' @ baseQuerySource config @ '','' \<longleftrightarrow>
      \<not> (\<exists>ep \<in> set endpoints. \<exists>n. maxRetries ep = Some n \<and> n > 0)) \<and>
   (\<exists>pre post. generateApiTs_lines P endpoints config =
        pre @ concat (map (generateEndpointDef P) endpoints) @ post \<and>
      length pre = length (typeImportLines endpoints) + 10) \<and>
   (\<forall>ep. generateEndpointDef P ep =
      butlast (generateEndpointDef P (ep\<lparr> maxRetries := None \<rparr>)) @
      (case maxRetries ep of
         None \<Rightarrow> []
       | Some n \<Rightarrow> if n > 0
           then [TAB @ TAB @ TAB @ ''extraOptions: { maxRetries: '' @ int_to_string n @ '' },'']
           else []) @
      [TAB @ TAB @ ''}),'']) \<and>
   generateApiTs P endpoints config = join NL (generateApiTs_lines P endpoints config) @ NL\<close>
proof (intro conjI allI)
  show \<open>generateApiTs_lines P endpoints config ! 1 =
       ''import { createApi, fetchBaseQuery, retry } from "@reduxjs/toolkit/query/react";'' \<longleftrightarrow>
      (\<exists>ep \<in> set endpoints. \<exists>n. maxRetries ep = Some n \<and> n > 0)\<close>
    unfolding generateApiTs_lines_import hasAnyRetries_iff[symmetric] by simp
  show \<open>generateApiTs_lines P endpoints config ! 1 =
       ''import { createApi, fetchBaseQuery } from "@reduxjs/toolkit/query/react";'' \<longleftrightarrow>
      \<not> (\<exists>ep \<in> set endpoints. \<exists>n. maxRetries ep = Some n \<and> n > 0)\<close>
    unfolding generateApiTs_lines_import hasAnyRetries_iff[symmetric] by simp
  show \<open>generateApiTs_lines P endpoints config ! (length (typeImportLines endpoints) + 5) =
       TAB @ ''baseQuery: retry('' @ baseQuerySource config @ '', { maxRetries: 0 }),'' \<longleftrightarrow>
      (\<exists>ep \<in> set endpoints. \<exists>n. maxRetries ep = Some n \<and> n > 0)\<close>
    unfolding generateApiTs_lines_baseQuery hasAnyRetries_iff[symmetric]
    using baseQuery_lines_differ[of "baseQuerySource config"] by (simp del: append_assoc)
  show \<open>generateApiTs_lines P endpoints config ! (length (typeImportLines endpoints) + 5) =
       TAB @ ''baseQuery: '' @ baseQuerySource config @ '','' \<longleftrightarrow>
      \<not> (\<exists>ep \<in> set endpoints. \<exists>n. maxRetries ep = Some n \<and> n > 0)\<close>
    unfolding generateApiTs_lines_baseQuery hasAnyRetries_iff[symmetric]
    using baseQuery_lines_differ[of "baseQuerySource config"] by (simp del: append_assoc)
  show "\<exists>pre post. generateApiTs_lines P endpoints config =
        pre @ concat (map (generateEndpointDef P) endpoints) @ post \<and>
      length pre = length (typeImportLines endpoints) + 10"
    by (rule generateApiTs_lines_endpoints)
  show "generateApiTs P endpoints config = join NL (generateApiTs_lines P endpoints config) @ NL"
    by (simp add: generateApiTs_def)
  fix ep
  show "generateEndpointDef P ep =
      butlast (generateEndpointDef P (ep\<lparr> maxRetries := None \<rparr>)) @
      (case maxRetries ep of
         None \<Rightarrow> []
       | Some n \<Rightarrow> if n > 0
           then [TAB @ TAB @ TAB @ ''extraOptions: { maxRetries: '' @ int_to_string n @ '' },'']
           else []) @
      [TAB @ TAB @ ''}),'']"
    by (rule generateEndpointDef_split)
qed


theorem generateApiTs_retry_witness:
  \<open>maxRetries listTasks_endpoint = Some 2 \<and> maxRetries createTask_endpoint = None \<and>
   generateApiTs_lines example_platform [listTasks_endpoint, createTask_endpoint] example_config ! 1 =
     ''import { createApi, fetchBaseQuery, retry } from "@reduxjs/toolkit/query/react";'' \<and>
   generateApiTs_lines example_platform [listTasks_endpoint, createTask_endpoint] example_config ! 5 =
     TAB @ ''baseQuery: retry(fetchBaseQuery({ baseUrl: "/api" }), { maxRetries: 0 }),'' \<and>
   generateEndpointDef example_platform listTasks_endpoint =
     [TAB @ TAB @ ''listTasks: builder.query<Task[], void>({'',
      TAB @ TAB @ TAB @ ''providesTags: ["Tasks"],'',
      TAB @ TAB @ TAB @ ''extraOptions: { maxRetries: 2 },'',
      TAB @ TAB @ ''}),''] \<and>
   generateEndpointDef example_platform createTask_endpoint =
     [TAB @ TAB @ ''createTask: builder.mutation<Task, NewTask>({'',
      TAB @ TAB @ ''}),'']\<close>
proof -
  let ?eps = "[listTasks_endpoint, createTask_endpoint]"
  note inst = generateApiTs_retry[of example_platform ?eps example_config]
  have m: "maxRetries listTasks_endpoint = Some 2" "maxRetries createTask_endpoint = None"
    by (simp_all add: listTasks_endpoint_def createTask_endpoint_def)
  then have ex: "\<exists>ep \<in> set ?eps. \<exists>n. maxRetries ep = Some n \<and> n > 0" by simp
  have k: "length (typeImportLines ?eps) = 0" by code_simp
  have b: \<open>baseQuerySource example_config = ''fetchBaseQuery({ baseUrl: "/api" })''\<close>
    by code_simp
  have l1: \<open>generateApiTs_lines example_platform ?eps example_config ! 1 =
     ''import { createApi, fetchBaseQuery, retry } from "@reduxjs/toolkit/query/react";''\<close>
    using inst ex by blast
  have "generateApiTs_lines example_platform ?eps example_config ! (length (typeImportLines ?eps) + 5) =
     TAB @ ''baseQuery: retry('' @ baseQuerySource example_config @ '', { maxRetries: 0 }),''"
    using inst ex by blast
  then have l5: \<open>generateApiTs_lines example_platform ?eps example_config ! 5 =
     TAB @ ''baseQuery: retry(fetchBaseQuery({ baseUrl: "/api" }), { maxRetries: 0 }),''\<close>
    unfolding k b by simp
  have d1: \<open>generateEndpointDef example_platform listTasks_endpoint =
     [TAB @ TAB @ ''listTasks: builder.query<Task[], void>({'',
      TAB @ TAB @ TAB @ ''providesTags: ["Tasks"],'',
      TAB @ TAB @ TAB @ ''extraOptions: { maxRetries: 2 },'',
      TAB @ TAB @ ''}),'']\<close>
    by code_simp
  have d2: \<open>generateEndpointDef example_platform createTask_endpoint =
     [TAB @ TAB @ ''createTask: builder.mutation<Task, NewTask>({'',
      TAB @ TAB @ ''}),'']\<close>
    by code_simp
  show ?thesis using m l1 l5 d1 d2 by blast
qed
end
